theory Spec2Isabelle
  imports Main
begin

section \<open>Python values and library outcomes\<close>

text \<open>
  The search results are decoded JSON objects. The code distinguishes three shapes of a
  value: \<open>None\<close>, a string, and a dict (\<open>isinstance(source, dict)\<close>). A dict is an
  association list with unique keys.
\<close>

datatype pyval = PyNone | PyStr string | PyDict "(string \<times> pyval) list"

type_synonym pydict = "(string \<times> pyval) list"

text \<open>A call into a library either raises an \<open>Exception\<close> or returns a value.\<close>

datatype 'a outcome = Raises | Returns 'a

text \<open>\<open>d.get(k, dflt)\<close>: the default is used only when the key is absent.\<close>

definition dict_get :: "pydict \<Rightarrow> string \<Rightarrow> pyval \<Rightarrow> pyval" where
  "dict_get d k dflt = (case map_of d k of None \<Rightarrow> dflt | Some v \<Rightarrow> v)"

text \<open>Truth value of a Python object: \<open>None\<close>, the empty string and the empty dict are false.\<close>

fun truthy :: "pyval \<Rightarrow> bool" where
  "truthy PyNone = False"
| "truthy (PyStr s) = (s \<noteq> [])"
| "truthy (PyDict d) = (d \<noteq> [])"

text \<open>Truth value of a nullable string (a TEXT column read back, or an optional result).\<close>

fun truthy_text :: "string option \<Rightarrow> bool" where
  "truthy_text None = False"
| "truthy_text (Some s) = (s \<noteq> [])"

text \<open>\<open>a or b\<close> on nullable strings: \<open>a\<close> when it is true, else \<open>b\<close>.\<close>

definition py_or :: "string option \<Rightarrow> string option \<Rightarrow> string option" where
  "py_or a b = (if truthy_text a then a else b)"

section \<open>The article table\<close>

text \<open>
  The metadata that \<open>extract_and_format_enhanced\<close> builds (\<open>clean_metadata\<close>). The
  table stores it serialised by \<open>json.dumps\<close>; the model keeps the structure.
\<close>

record clean_metadata =
  md_title :: "string option"
  md_date :: "string option"
  md_author :: "string option"
  md_source :: "string option"
  md_url :: string
  md_description :: string
  md_image_url :: "string option"
  md_content_source :: string
  md_trafilatura_success :: bool

text \<open>
  A row of table \<open>articles\<close>. \<open>url\<close> is \<open>TEXT UNIQUE NOT NULL\<close>; the other TEXT
  columns accept NULL (\<open>None\<close>). \<open>searxng_data\<close> is the payload that \<open>json.dumps\<close>
  serialises, kept as the object. The integer columns \<open>processed\<close> and
  \<open>trafilatura_success\<close> only ever hold 0 or 1. The table is the list of its rows in
  insertion order, which is the order of the autoincremented \<open>id\<close> and of
  \<open>created_at\<close> (the clock of \<open>CURRENT_TIMESTAMP\<close> does not run backwards).
\<close>

record article =
  url :: string
  title :: "string option"
  content :: "string option"
  published_date :: "string option"
  source_name :: "string option"
  img_src :: "string option"
  thumbnail :: "string option"
  searxng_data :: pydict
  processed :: bool
  trafilatura_success :: bool
  extracted_content :: "string option"
  extracted_metadata :: "clean_metadata option"

type_synonym db = "article list"

text \<open>
  Whether SQLite carries out the statement and the commit of one call. \<open>SqlError\<close> is an
  exception raised by \<open>cursor.execute\<close> or \<open>conn.commit\<close>, inside the \<open>try\<close> of the
  method; the connection is then closed without a commit, so nothing is written.
\<close>

datatype sqlite_outcome = SqlOk | SqlError

text \<open>
  Whether a call of \<open>mark_as_processed\<close> can open the database.
  \<open>sqlite3.connect\<close> and \<open>conn.cursor()\<close> come before the \<open>try\<close> of the method,
  so an error there (\<open>CannotOpen\<close>) leaves the method as an exception and writes
  nothing. For \<open>insert_searxng_result\<close> and the methods that only read, the
  connection is taken to open.
\<close>

datatype store_outcome = CannotOpen | Opened sqlite_outcome

text \<open>
  Binding a Python value to a statement parameter: \<open>None\<close> is NULL, a string is TEXT,
  a dict is not supported and makes \<open>execute\<close> raise. \<open>text_of\<close> is the column value
  of a value that can be bound.
\<close>

fun bindable :: "pyval \<Rightarrow> bool" where
  "bindable (PyDict d) = False"
| "bindable v = True"

fun text_of :: "pyval \<Rightarrow> string option" where
  "text_of (PyStr s) = Some s"
| "text_of v = None"

text \<open>
  \<open>source.get('name', '') if isinstance(source, dict) else str(source)\<close>;
  \<open>str(None)\<close> is the string \<open>None\<close>.
\<close>

fun source_name_of :: "pyval \<Rightarrow> pyval" where
  "source_name_of (PyDict d) = dict_get d ''name'' (PyStr '''')"
| "source_name_of (PyStr s) = PyStr s"
| "source_name_of PyNone = PyStr ''None''"

definition has_url :: "db \<Rightarrow> string \<Rightarrow> bool" where
  "has_url d u = (\<exists>r \<in> set d. url r = u)"

definition new_article :: "string \<Rightarrow> pyval \<Rightarrow> pyval \<Rightarrow> pyval \<Rightarrow> pyval \<Rightarrow> pyval \<Rightarrow> pyval \<Rightarrow> pydict \<Rightarrow> article" where
  "new_article u t c p s i th payload =
     \<lparr> url = u, title = text_of t, content = text_of c, published_date = text_of p,
       source_name = text_of s, img_src = text_of i, thumbnail = text_of th,
       searxng_data = payload, processed = False, trafilatura_success = False,
       extracted_content = None, extracted_metadata = None \<rparr>"

text \<open>
  The body of the \<open>try\<close> in \<open>NewsDatabase.insert_searxng_result\<close>: the early
  \<open>return False\<close> for a missing url, then \<open>INSERT OR IGNORE\<close> and
  \<open>cursor.rowcount > 0\<close>.
\<close>

definition insert_try :: "sqlite_outcome \<Rightarrow> db \<Rightarrow> pydict \<Rightarrow> (bool \<times> db) outcome" where
  "insert_try oc d searx_article =
     (let u = dict_get searx_article ''url'' (PyStr '''') in
      if \<not> truthy u then Returns (False, d)
      else
        let t = dict_get searx_article ''title'' (PyStr '''');
            c = dict_get searx_article ''content'' (PyStr '''');
            p = dict_get searx_article ''publishedDate'' (PyStr '''');
            s = source_name_of (dict_get searx_article ''source'' (PyDict []));
            i = dict_get searx_article ''img_src'' (PyStr '''');
            th = dict_get searx_article ''thumbnail'' (PyStr '''')
        in case u of
             PyStr us \<Rightarrow>
               if oc = SqlError \<or> \<not> list_all bindable [t, c, p, s, i, th] then Raises
               else if has_url d us then Returns (False, d)
               else Returns (True, d @ [new_article us t c p s i th searx_article])
           | _ \<Rightarrow> Raises)"

text \<open>\<open>except Exception: return False\<close>.\<close>

definition insert_searxng_result :: "sqlite_outcome \<Rightarrow> db \<Rightarrow> pydict \<Rightarrow> bool \<times> db" where
  "insert_searxng_result oc d searx_article =
     (case insert_try oc d searx_article of
        Raises \<Rightarrow> (False, d)
      | Returns r \<Rightarrow> r)"

text \<open>
  \<open>NewsDatabase.get_unprocessed_articles\<close>: the rows with \<open>processed = 0\<close>, oldest
  first; \<open>if limit:\<close> adds the LIMIT clause only for a limit that is neither \<open>None\<close>
  nor 0.
\<close>

definition get_unprocessed_articles :: "db \<Rightarrow> nat option \<Rightarrow> article list" where
  "get_unprocessed_articles d limit =
     (let rows = filter (\<lambda>r. \<not> processed r) d in
      case limit of
        None \<Rightarrow> rows
      | Some n \<Rightarrow> if n = 0 then rows else take n rows)"

text \<open>The UPDATE of \<open>NewsDatabase.mark_as_processed\<close> on one row.\<close>

definition set_processed :: "bool \<Rightarrow> string option \<Rightarrow> clean_metadata option \<Rightarrow> article \<Rightarrow> article" where
  "set_processed success ec em r =
     r\<lparr> processed := True, trafilatura_success := success,
        extracted_content := ec, extracted_metadata := em \<rparr>"

text \<open>The body of the \<open>try\<close>: \<open>UPDATE articles SET ... WHERE url = ?\<close> and the commit.\<close>

definition mark_try :: "sqlite_outcome \<Rightarrow> db \<Rightarrow> string \<Rightarrow> bool \<Rightarrow> string option \<Rightarrow> clean_metadata option \<Rightarrow> db outcome" where
  "mark_try oc d u success ec em =
     (case oc of
        SqlError \<Rightarrow> Raises
      | SqlOk \<Rightarrow> Returns (map (\<lambda>r. if url r = u then set_processed success ec em r else r) d))"

text \<open>
  The \<open>try\<close> with its handler, \<open>except Exception\<close>: the error is logged, and the
  table is as before.
\<close>

definition mark_caught :: "sqlite_outcome \<Rightarrow> db \<Rightarrow> string \<Rightarrow> bool \<Rightarrow> string option \<Rightarrow> clean_metadata option \<Rightarrow> db" where
  "mark_caught oc d u success ec em =
     (case mark_try oc d u success ec em of
        Raises \<Rightarrow> d
      | Returns d' \<Rightarrow> d')"

text \<open>
  \<open>NewsDatabase.mark_as_processed\<close>: the method raises when the database cannot be
  opened; once the connection is open it returns, whatever the UPDATE does.
\<close>

definition mark_as_processed :: "store_outcome \<Rightarrow> db \<Rightarrow> string \<Rightarrow> bool \<Rightarrow> string option \<Rightarrow> clean_metadata option \<Rightarrow> db outcome" where
  "mark_as_processed c d u success ec em =
     (case c of
        CannotOpen \<Rightarrow> Raises
      | Opened oc \<Rightarrow> Returns (mark_caught oc d u success ec em))"

text \<open>\<open>NewsDatabase.get_stats\<close>: total, processed, unprocessed, successful, failed.\<close>

definition get_stats :: "db \<Rightarrow> nat \<times> nat \<times> nat \<times> nat \<times> int" where
  "get_stats d =
     (let n_total = length d;
          n_processed = length (filter processed d);
          successful = length (filter trafilatura_success d)
      in (n_total, n_processed, n_total - n_processed, successful,
          int n_processed - int successful))"

text \<open>The row stored under a url.\<close>

definition lookup :: "db \<Rightarrow> string \<Rightarrow> article option" where
  "lookup d u = find (\<lambda>r. url r = u) d"

section \<open>Collaborators\<close>

text \<open>The dictionary of \<open>trafilatura.extract_metadata(...).as_dict()\<close>, at the keys the code reads.\<close>

record traf_meta =
  tm_title :: "string option"
  tm_date :: "string option"
  tm_author :: "string option"
  tm_sitename :: "string option"
  tm_description :: "string option"
  tm_image :: "string option"

text \<open>
  The library calls of the collector and of the extraction engine, and what SQLite
  does with each statement:
  \<^item> \<open>searx query base_url time_range page\<close>: the HTTP request of \<open>get_searxng_news\<close>,
    \<open>raise_for_status\<close> and the decoding of \<open>results\<close>;
  \<^item> \<open>fetch_url u no_ssl\<close>: \<open>trafilatura.fetch_url\<close>;
  \<^item> \<open>traf_extract\<close>, \<open>traf_extract_metadata\<close>: \<open>trafilatura.extract\<close> and
    \<open>trafilatura.extract_metadata\<close> on the downloaded page;
  \<^item> \<open>urlparse_netloc\<close>: \<open>urlparse(url).netloc\<close>;
  \<^item> \<open>sql_insert\<close>: the outcome of the INSERT for a search result;
  \<^item> \<open>sql_update\<close>, \<open>sql_update_handler\<close>: what the database does in the call of
    \<open>mark_as_processed\<close> for a url at step E of the extraction, and in the call made
    by the handler of the extraction.
\<close>

record collab =
  searx :: "string \<Rightarrow> string \<Rightarrow> string option \<Rightarrow> nat \<Rightarrow> pydict list outcome"
  fetch_url :: "string \<Rightarrow> bool \<Rightarrow> string option outcome"
  traf_extract :: "string \<Rightarrow> string option outcome"
  traf_extract_metadata :: "string \<Rightarrow> traf_meta option outcome"
  urlparse_netloc :: "string \<Rightarrow> string outcome"
  sql_insert :: "pydict \<Rightarrow> sqlite_outcome"
  sql_update :: "string \<Rightarrow> store_outcome"
  sql_update_handler :: "string \<Rightarrow> store_outcome"

section \<open>Helper functions\<close>

text \<open>\<open>s.replace('www.', '')\<close>: every occurrence, left to right, without overlap.\<close>

fun remove_www :: "string \<Rightarrow> string" where
  "remove_www [] = []"
| "remove_www (c # cs) =
     (if take 4 (c # cs) = ''www.'' then remove_www (drop 3 cs) else c # remove_www cs)"

definition get_domain :: "collab \<Rightarrow> string \<Rightarrow> string" where
  "get_domain env u =
     (case urlparse_netloc env u of
        Raises \<Rightarrow> []
      | Returns n \<Rightarrow> remove_www n)"

text \<open>
  \<open>fetch_with_strategy\<close>: the standard download, a second one with \<open>no_ssl=True\<close>
  when the first returned \<open>None\<close>, and \<open>None\<close> when either raises.
\<close>

definition fetch_with_strategy :: "collab \<Rightarrow> string \<Rightarrow> string option" where
  "fetch_with_strategy env u =
     (case fetch_url env u False of
        Raises \<Rightarrow> None
      | Returns (Some page) \<Rightarrow> Some page
      | Returns None \<Rightarrow>
          (case fetch_url env u True of
             Raises \<Rightarrow> None
           | Returns downloaded \<Rightarrow> downloaded))"

section \<open>Search component\<close>

text \<open>\<open>get_searxng_news\<close>: \<open>time_range\<close> is sent only when it is true; any exception gives \<open>[]\<close>.\<close>

definition get_searxng_news :: "collab \<Rightarrow> string \<Rightarrow> string \<Rightarrow> string option \<Rightarrow> nat \<Rightarrow> pydict list" where
  "get_searxng_news env query base_url time_range page =
     (case searx env query base_url (if truthy_text time_range then time_range else None) page of
        Raises \<Rightarrow> []
      | Returns results \<Rightarrow> results)"

section \<open>Extraction component\<close>

text \<open>The record that \<open>extract_and_format_enhanced\<close> returns.\<close>

record extracted =
  out_id :: string
  page_content :: string
  metadata :: clean_metadata

text \<open>
  Step A: when something was downloaded, the text and the metadata that Trafilatura
  finds in it; \<open>(None, None)\<close> when nothing was downloaded (\<open>trafilatura_content = None\<close>,
  \<open>trafilatura_metadata = {}\<close>). \<open>if downloaded:\<close> is false for \<open>None\<close> and for the
  empty string.
\<close>

definition trafilatura_step :: "collab \<Rightarrow> string option \<Rightarrow> (string option \<times> traf_meta option) outcome" where
  "trafilatura_step env downloaded =
     (case downloaded of
        None \<Rightarrow> Returns (None, None)
      | Some page \<Rightarrow>
          if page = [] then Returns (None, None)
          else
            (case traf_extract env page of
               Raises \<Rightarrow> Raises
             | Returns c \<Rightarrow>
                 (case traf_extract_metadata env page of
                    Raises \<Rightarrow> Raises
                  | Returns m \<Rightarrow> Returns (c, m))))"

text \<open>\<open>trafilatura_metadata.get(k)\<close>: \<open>None\<close> on the empty dictionary.\<close>

definition meta_get :: "traf_meta option \<Rightarrow> (traf_meta \<Rightarrow> string option) \<Rightarrow> string option" where
  "meta_get tm f = (case tm of None \<Rightarrow> None | Some m \<Rightarrow> f m)"

text \<open>
  Step C, the dictionary \<open>clean_metadata\<close>. \<open>(... or ...)[:500]\<close> raises a
  \<open>TypeError\<close> when both operands are \<open>None\<close>; \<open>get('author', '')\<close> has the default
  \<open>''\<close> on the empty dictionary only.
\<close>

definition build_metadata :: "collab \<Rightarrow> article \<Rightarrow> traf_meta option \<Rightarrow> string \<Rightarrow> bool \<Rightarrow> clean_metadata outcome" where
  "build_metadata env a tm content_source success =
     (case py_or (meta_get tm tm_description) (content a) of
        None \<Rightarrow> Raises
      | Some description \<Rightarrow>
          Returns
            \<lparr> md_title = py_or (meta_get tm tm_title) (title a),
              md_date = py_or (meta_get tm tm_date) (published_date a),
              md_author = (case tm of None \<Rightarrow> Some [] | Some m \<Rightarrow> tm_author m),
              md_source = py_or (py_or (meta_get tm tm_sitename) (source_name a))
                                (Some (get_domain env (url a))),
              md_url = url a,
              md_description = take 500 description,
              md_image_url = py_or (py_or (meta_get tm tm_image) (img_src a)) (thumbnail a),
              md_content_source = content_source,
              md_trafilatura_success = success \<rparr>)"

text \<open>
  Steps C to E: the metadata, the output record and the update of the table. An
  exception of \<open>mark_as_processed\<close> at step E is inside the \<open>try\<close>.
\<close>

definition finish_extract :: "collab \<Rightarrow> db \<Rightarrow> article \<Rightarrow> traf_meta option \<Rightarrow> string \<Rightarrow> string \<Rightarrow> bool \<Rightarrow> (extracted option \<times> db) outcome" where
  "finish_extract env d a tm final_content content_source success =
     (case build_metadata env a tm content_source success of
        Raises \<Rightarrow> Raises
      | Returns clean \<Rightarrow>
          (case mark_as_processed (sql_update env (url a)) d (url a) success
                  (if success then Some final_content else None) (Some clean) of
             Raises \<Rightarrow> Raises
           | Returns d' \<Rightarrow>
               Returns
                 (Some \<lparr> out_id = url a, page_content = final_content, metadata = clean \<rparr>,
                  d')))"

text \<open>
  The \<open>else\<close> branch of step B: the snippet, or else the title, as content; the early
  \<open>return None\<close> when both are empty.
\<close>

definition fallback_extract :: "collab \<Rightarrow> db \<Rightarrow> article \<Rightarrow> traf_meta option \<Rightarrow> (extracted option \<times> db) outcome" where
  "fallback_extract env d a tm =
     (case py_or (content a) (title a) of
        None \<Rightarrow> Returns (None, d)
      | Some final_content \<Rightarrow>
          if final_content = [] then Returns (None, d)
          else finish_extract env d a tm final_content ''searxng_fallback'' False)"

text \<open>
  The body of the \<open>try\<close> in \<open>extract_and_format_enhanced\<close>; \<open>if trafilatura_content:\<close>
  is false for \<open>None\<close> and for the empty string. \<open>Raises\<close> is an exception
  that reaches the handler; the table is then as it was, since an exception of step E
  comes from opening the database.
\<close>

definition extract_try :: "collab \<Rightarrow> db \<Rightarrow> article \<Rightarrow> (extracted option \<times> db) outcome" where
  "extract_try env d a =
     (case trafilatura_step env (fetch_with_strategy env (url a)) of
        Raises \<Rightarrow> Raises
      | Returns (trafilatura_content, tm) \<Rightarrow>
          (case trafilatura_content of
             None \<Rightarrow> fallback_extract env d a tm
           | Some final_content \<Rightarrow>
               if final_content = [] then fallback_extract env d a tm
               else finish_extract env d a tm final_content ''trafilatura'' True))"

text \<open>
  \<open>extract_and_format_enhanced\<close>: nothing for a row without url; the handler marks the
  article as processed and failed, with the defaults \<open>None\<close> for both extracted columns,
  and returns \<open>None\<close>. An exception of the handler's own call of
  \<open>mark_as_processed\<close> leaves the function. The result says whether the function
  raised or what it returned, and gives the table afterwards.
\<close>

definition extract_and_format_enhanced :: "collab \<Rightarrow> db \<Rightarrow> article \<Rightarrow> extracted option outcome \<times> db" where
  "extract_and_format_enhanced env d a =
     (if url a = [] then (Returns None, d)
      else
        (case extract_try env d a of
           Raises \<Rightarrow>
             (case mark_as_processed (sql_update_handler env (url a)) d (url a) False None None of
                Raises \<Rightarrow> (Raises, d)
              | Returns d' \<Rightarrow> (Returns None, d'))
         | Returns (result, d') \<Rightarrow> (Returns result, d')))"

section \<open>Chunking, embedding and upload\<close>

text \<open>
  \<open>str.strip()\<close>: the characters for which \<open>isspace\<close> holds, among the code points
  below 256 that a \<open>char\<close> stands for.
\<close>

definition is_space :: "char \<Rightarrow> bool" where
  "is_space c = (c \<in> set [CHR 0x09, CHR 0x0A, CHR 0x0B, CHR 0x0C, CHR 0x0D, CHR 0x1C,
                           CHR 0x1D, CHR 0x1E, CHR 0x1F, CHR 0x20, CHR 0x85, CHR 0xA0])"

definition py_strip :: "string \<Rightarrow> string" where
  "py_strip s = rev (dropWhile is_space (rev (dropWhile is_space s)))"

text \<open>\<open>combined_metadata\<close>: a copy of the record's metadata with \<open>source_id\<close> added.\<close>

record combined_metadata =
  cm_metadata :: clean_metadata
  cm_source_id :: string

text \<open>A row of table \<open>documents\<close> of the vector store.\<close>

record 'v document =
  doc_content :: string
  doc_metadata :: combined_metadata
  doc_embedding :: 'v

text \<open>
  The collaborators of the upload: the creation of the two clients, the text splitter
  (\<open>RecursiveCharacterTextSplitter.split_text\<close>), the embedding model and the insert
  request of the vector store.
\<close>

record 'v uploader =
  create_clients :: "unit outcome"
  split_text :: "string \<Rightarrow> string list"
  get_embedding :: "string \<Rightarrow> 'v outcome"
  supabase_insert :: "'v document list \<Rightarrow> unit outcome"

text \<open>
  \<open>CustomBedrockEmbeddings.embed_documents\<close>: one call of the model per text, in order,
  until one raises. The second component lists the texts the model was called on.
\<close>

fun embed_documents :: "(string \<Rightarrow> 'v outcome) \<Rightarrow> string list \<Rightarrow> 'v list outcome \<times> string list" where
  "embed_documents e [] = (Returns [], [])"
| "embed_documents e (t # ts) =
     (case e t of
        Raises \<Rightarrow> (Raises, [t])
      | Returns v \<Rightarrow>
          (case embed_documents e ts of
             (Raises, calls) \<Rightarrow> (Raises, t # calls)
           | (Returns vs, calls) \<Rightarrow> (Returns (v # vs), t # calls)))"

text \<open>The chunks that one record adds to \<open>texts_to_embed\<close>, each with its metadata.\<close>

definition record_chunks :: "(string \<Rightarrow> string list) \<Rightarrow> extracted \<Rightarrow> (string \<times> combined_metadata) list" where
  "record_chunks splitter r =
     (let body = page_content r in
      if body = [] \<or> length (py_strip body) < 50 then []
      else
        let combined = \<lparr> cm_metadata = metadata r, cm_source_id = out_id r \<rparr>
        in map (\<lambda>chunk. (chunk, combined))
               (filter (\<lambda>chunk. length (py_strip chunk) > 20) (splitter body)))"

text \<open>Which log line ends \<open>process_and_upload_json_records\<close>.\<close>

datatype upload_log = NoRecords | ClientsFailed | NoContent | UploadError | UploadComplete

definition make_document :: "(string \<times> combined_metadata) \<times> 'v \<Rightarrow> 'v document" where
  "make_document x =
     (case x of ((chunk, meta), vector) \<Rightarrow>
        \<lparr> doc_content = chunk, doc_metadata = meta, doc_embedding = vector \<rparr>)"

text \<open>
  \<open>process_and_upload_json_records\<close> on the rows \<open>vs\<close> of the vector store: the log
  line, the rows afterwards, and the texts the embedding model was called on. A
  request that raises inserts nothing.
\<close>

definition process_and_upload_json_records :: "'v uploader \<Rightarrow> 'v document list \<Rightarrow> extracted list \<Rightarrow> upload_log \<times> 'v document list \<times> string list" where
  "process_and_upload_json_records up vs records =
     (if records = [] then (NoRecords, vs, [])
      else
        (case create_clients up of
           Raises \<Rightarrow> (ClientsFailed, vs, [])
         | Returns u \<Rightarrow>
             let chunks = concat (map (record_chunks (split_text up)) records) in
             if chunks = [] then (NoContent, vs, [])
             else
               (case embed_documents (get_embedding up) (map fst chunks) of
                  (Raises, calls) \<Rightarrow> (UploadError, vs, calls)
                | (Returns vectors, calls) \<Rightarrow>
                    let data_to_insert = map make_document (zip chunks vectors) in
                    (case supabase_insert up data_to_insert of
                       Raises \<Rightarrow> (UploadError, vs, calls)
                     | Returns u' \<Rightarrow> (UploadComplete, vs @ data_to_insert, calls)))))"

section \<open>The pipeline\<close>

text \<open>The inner loop of \<open>collect_searxng_articles\<close>: the number of new rows of one page.\<close>

fun insert_items :: "collab \<Rightarrow> db \<Rightarrow> pydict list \<Rightarrow> nat \<times> db" where
  "insert_items env d [] = (0, d)"
| "insert_items env d (item # items) =
     (case insert_searxng_result (sql_insert env item) d item of
        (is_new, d') \<Rightarrow>
          (case insert_items env d' items of
             (n, d'') \<Rightarrow> ((if is_new then 1 else 0) + n, d'')))"

text \<open>
  The page loop, from page \<open>page\<close> with \<open>k\<close> pages left: an empty page ends it.
\<close>

fun collect_pages :: "collab \<Rightarrow> string \<Rightarrow> string \<Rightarrow> string option \<Rightarrow> nat \<Rightarrow> nat \<Rightarrow> db \<Rightarrow> nat \<times> db" where
  "collect_pages env topic searx_url time_range page 0 d = (0, d)"
| "collect_pages env topic searx_url time_range page (Suc k) d =
     (let items = get_searxng_news env topic searx_url time_range page in
      if items = [] then (0, d)
      else
        (case insert_items env d items of
           (new_items_count, d') \<Rightarrow>
             (case collect_pages env topic searx_url time_range (Suc page) k d' of
                (rest, d'') \<Rightarrow> (new_items_count + rest, d''))))"

definition collect_searxng_articles :: "collab \<Rightarrow> db \<Rightarrow> string \<Rightarrow> string \<Rightarrow> nat \<Rightarrow> string option \<Rightarrow> nat \<times> db" where
  "collect_searxng_articles env d topic searx_url max_pages time_range =
     collect_pages env topic searx_url time_range 1 max_pages d"

text \<open>
  The loop of \<open>process_stored_articles\<close> over the rows read at its start.
  \<open>article['title'][:50]\<close> raises a \<open>TypeError\<close> on a NULL title; nothing catches it
  here, nor an exception that leaves \<open>extract_and_format_enhanced\<close>, and the table
  keeps what the earlier articles wrote.
\<close>

fun process_loop :: "collab \<Rightarrow> db \<Rightarrow> article list \<Rightarrow> extracted list \<Rightarrow> extracted list outcome \<times> db" where
  "process_loop env d [] processed_records = (Returns processed_records, d)"
| "process_loop env d (a # articles) processed_records =
     (case title a of
        None \<Rightarrow> (Raises, d)
      | Some t \<Rightarrow>
          (case extract_and_format_enhanced env d a of
             (Raises, d') \<Rightarrow> (Raises, d')
           | (Returns None, d') \<Rightarrow> process_loop env d' articles processed_records
           | (Returns (Some result), d') \<Rightarrow>
               process_loop env d' articles (processed_records @ [result])))"

definition process_stored_articles :: "collab \<Rightarrow> db \<Rightarrow> nat option \<Rightarrow> extracted list outcome \<times> db" where
  "process_stored_articles env d limit =
     (let articles = get_unprocessed_articles d limit in
      if articles = [] then (Returns [], d)
      else process_loop env d articles [])"

text \<open>
  \<open>run_complete_pipeline\<close>: collect, process, upload. The result says whether the run
  raised, and gives the article table and the vector store afterwards.
\<close>

definition run_complete_pipeline :: "collab \<Rightarrow> 'v uploader \<Rightarrow> db \<Rightarrow> 'v document list \<Rightarrow> string \<Rightarrow> string \<Rightarrow> nat \<Rightarrow> string option \<Rightarrow> nat option \<Rightarrow> unit outcome \<times> db \<times> 'v document list" where
  "run_complete_pipeline env up d vs topic searx_url max_pages time_range process_limit =
     (case collect_searxng_articles env d topic searx_url max_pages time_range of
        (new_articles, d1) \<Rightarrow>
          (case process_stored_articles env d1 process_limit of
             (Raises, d2) \<Rightarrow> (Raises, d2, vs)
           | (Returns processed_records, d2) \<Rightarrow>
               if processed_records = [] then (Returns (), d2, vs)
               else
                 (case process_and_upload_json_records up vs processed_records of
                    (l, vs', calls) \<Rightarrow> (Returns (), d2, vs'))))"

section \<open>Tables that the program can produce\<close>

text \<open>
  The article table starts empty and is written by \<open>insert_searxng_result\<close> and, through
  \<open>extract_and_format_enhanced\<close>, by \<open>mark_as_processed\<close>; no other code of the
  program calls the database.
\<close>

inductive reachable :: "db \<Rightarrow> bool" where
  reachable_init: "reachable []"
| reachable_insert:
    "reachable d \<Longrightarrow> insert_searxng_result oc d searx_article = (is_new, d') \<Longrightarrow> reachable d'"
| reachable_extract:
    "reachable d \<Longrightarrow> extract_and_format_enhanced env d a = (result, d') \<Longrightarrow> reachable d'"

text \<open>
  \<open>later d d'\<close>: the table \<open>d'\<close> comes from the table \<open>d\<close> by any number of
  insertions and extractions, with any collaborators.
\<close>

inductive later :: "db \<Rightarrow> db \<Rightarrow> bool" where
  later_refl: "later d d"
| later_insert:
    "later d d1 \<Longrightarrow> insert_searxng_result oc d1 searx_article = (is_new, d2) \<Longrightarrow> later d d2"
| later_extract:
    "later d d1 \<Longrightarrow> extract_and_format_enhanced env d1 a = (result, d2) \<Longrightarrow> later d d2"

section \<open>Example data\<close>

text \<open>
  The search result \<open>{"url": "https://a.test/1", "title": "T", "content": "snippet text"}\<close>,
  the row that its insertion stores, and that row after a successful extraction.
\<close>

definition example_result :: pydict where
  "example_result =
     [(''url'', PyStr ''https://a.test/1''), (''title'', PyStr ''T''),
      (''content'', PyStr ''snippet text'')]"

definition example_article :: article where
  "example_article =
     \<lparr> url = ''https://a.test/1'', title = Some ''T'', content = Some ''snippet text'',
       published_date = Some [], source_name = Some [], img_src = Some [],
       thumbnail = Some [], searxng_data = example_result, processed = False,
       trafilatura_success = False, extracted_content = None, extracted_metadata = None \<rparr>"

definition example_metadata :: clean_metadata where
  "example_metadata =
     \<lparr> md_title = Some ''T'', md_date = Some [], md_author = Some [],
       md_source = Some ''a.test'', md_url = ''https://a.test/1'',
       md_description = ''snippet text'', md_image_url = Some [],
       md_content_source = ''trafilatura'', md_trafilatura_success = True \<rparr>"

definition example_processed :: article where
  "example_processed =
     example_article\<lparr> processed := True, trafilatura_success := True,
       extracted_content := Some ''full text'', extracted_metadata := Some example_metadata \<rparr>"

text \<open>
  Collaborators for which every download returns \<open>None\<close> and every search request
  fails; \<open>a.test\<close> is the network location of the example url.
\<close>

definition offline :: collab where
  "offline =
     \<lparr> searx = (\<lambda>q b t p. Raises), fetch_url = (\<lambda>u n. Returns None),
       traf_extract = (\<lambda>p. Returns None), traf_extract_metadata = (\<lambda>p. Returns None),
       urlparse_netloc = (\<lambda>u. Returns ''a.test''), sql_insert = (\<lambda>x. SqlOk),
       sql_update = (\<lambda>u. Opened SqlOk), sql_update_handler = (\<lambda>u. Opened SqlOk) \<rparr>"

text \<open>
  Collaborators for which every download gives a page in which Trafilatura finds the
  text \<open>full text\<close> and no metadata.
\<close>

definition online :: collab where
  "online =
     offline\<lparr> fetch_url := (\<lambda>u n. Returns (Some ''<html>'')),
               traf_extract := (\<lambda>p. Returns (Some ''full text'')) \<rparr>"

text \<open>The example row after an extraction that fell back to the snippet.\<close>

definition fallback_metadata :: clean_metadata where
  "fallback_metadata =
     example_metadata\<lparr> md_content_source := ''searxng_fallback'', md_trafilatura_success := False \<rparr>"

definition example_fallback :: article where
  "example_fallback =
     example_article\<lparr> processed := True, extracted_metadata := Some fallback_metadata \<rparr>"

text \<open>
  The search result \<open>{"url": "https://a.test/1", "title": "T", "content": null}\<close> and
  the row that its insertion stores, with a NULL snippet; the example row with an empty
  snippet and an empty title.
\<close>

definition example_null_result :: pydict where
  "example_null_result =
     [(''url'', PyStr ''https://a.test/1''), (''title'', PyStr ''T''), (''content'', PyNone)]"

definition example_null_snippet :: article where
  "example_null_snippet =
     example_article\<lparr> content := None, searxng_data := example_null_result \<rparr>"

definition example_empty :: article where
  "example_empty = example_article\<lparr> title := Some [], content := Some [] \<rparr>"

text \<open>
  The offline collaborators with a download that raises, and with a download that
  succeeds followed by an extraction that raises.
\<close>

definition fetch_raises :: collab where
  "fetch_raises = offline\<lparr> fetch_url := (\<lambda>u n. Raises) \<rparr>"

definition parser_raises :: collab where
  "parser_raises =
     offline\<lparr> fetch_url := (\<lambda>u n. Returns (Some ''<html>'')), traf_extract := (\<lambda>p. Raises) \<rparr>"

text \<open>Collaborators for which no call of \<open>mark_as_processed\<close> can open the database.\<close>

definition store_closed :: collab where
  "store_closed =
     offline\<lparr> sql_update := (\<lambda>u. CannotOpen), sql_update_handler := (\<lambda>u. CannotOpen) \<rparr>"


text \<open>
  Collaborators of the upload that always answer, a second article, and that article
  after an extraction that fell back to the snippet.
\<close>

definition example_uploader :: "nat uploader" where
  "example_uploader =
     \<lparr> create_clients = Returns (), split_text = (\<lambda>s. [s]),
       get_embedding = (\<lambda>t. Returns (length t)), supabase_insert = (\<lambda>rows. Returns ()) \<rparr>"

definition example_other :: article where
  "example_other = example_article\<lparr> url := ''https://a.test/2'' \<rparr>"

text \<open>Another search result with the url of the example, \<open>{"url": "https://a.test/1", "title": "Again"}\<close>.\<close>

definition example_duplicate :: pydict where
  "example_duplicate = [(''url'', PyStr ''https://a.test/1''), (''title'', PyStr ''Again'')]"

definition example_other_fallback :: article where
  "example_other_fallback =
     example_other\<lparr> processed := True,
       extracted_metadata := Some (fallback_metadata\<lparr> md_url := ''https://a.test/2'' \<rparr>) \<rparr>"

text \<open>
  An embedding model that raises on every text; records with a body of 60 and of 49
  letters; a record whose body is a paragraph of 490 letters, an empty line and a
  paragraph of 20 letters, and the two chunks that the text splitter (chunk size 500)
  makes of that body.
\<close>

definition failing_embedder :: "nat uploader" where
  "failing_embedder = example_uploader\<lparr> get_embedding := (\<lambda>t. Raises) \<rparr>"

definition example_long_record :: extracted where
  "example_long_record =
     \<lparr> out_id = ''https://a.test/1'', page_content = replicate 60 (CHR ''a''),
       metadata = example_metadata \<rparr>"

definition example_short_record :: extracted where
  "example_short_record =
     \<lparr> out_id = ''https://a.test/1'', page_content = replicate 49 (CHR ''a''),
       metadata = example_metadata \<rparr>"

definition two_paragraphs :: string where
  "two_paragraphs = replicate 490 (CHR ''a'') @ [CHR 0x0A, CHR 0x0A] @ replicate 20 (CHR ''b'')"

definition paragraph_splitter :: "string \<Rightarrow> string list" where
  "paragraph_splitter s = [take 490 s, drop 492 s]"

definition example_two_paragraphs :: extracted where
  "example_two_paragraphs =
     \<lparr> out_id = ''https://a.test/1'', page_content = two_paragraphs,
       metadata = example_metadata \<rparr>"

section \<open>The invariant of a row\<close>

definition row_ok :: "article \<Rightarrow> bool" where
  "row_ok r =
     ((extracted_content r \<noteq> None \<longrightarrow> trafilatura_success r)
      \<and> (trafilatura_success r \<longrightarrow>
           processed r \<and> extracted_content r \<noteq> None \<and> extracted_metadata r \<noteq> None)
      \<and> (\<not> processed r \<longrightarrow> extracted_content r = None \<and> extracted_metadata r = None))"

section \<open>The article table: insertion\<close>

lemma insert_result_cases:
  assumes "insert_searxng_result oc d a = (r, d')"
  shows "(\<not> r \<and> d' = d) \<or>
         (r \<and> (\<exists>u row. dict_get a ''url'' (PyStr []) = PyStr u \<and> u \<noteq> [] \<and> \<not> has_url d u
                 \<and> url row = u \<and> \<not> processed row \<and> d' = d @ [row]))"
  using assms
  by (auto simp: insert_searxng_result_def insert_try_def Let_def new_article_def
           split: if_splits pyval.splits outcome.splits)

lemma insert_stored_url:
  assumes "dict_get a ''url'' (PyStr []) = PyStr u" and "has_url d u"
  shows "insert_searxng_result oc d a = (False, d)"
  using assms
  by (auto simp: insert_searxng_result_def insert_try_def Let_def
           split: if_splits pyval.splits outcome.splits)

lemma insert_distinct:
  assumes "insert_searxng_result oc d a = (r, d')" and "distinct (map url d)"
  shows "distinct (map url d')"
  using insert_result_cases[OF assms(1)] assms(2)
  by (fastforce simp: has_url_def)

lemma distinct_url_count:
  "distinct (map url d) \<Longrightarrow> length (filter (\<lambda>r. url r = u) d) \<le> 1"
proof (induction d)
  case Nil
  then show ?case by simp
next
  case (Cons a d)
  show ?case
  proof (cases "url a = u")
    case True
    with Cons.prems have "u \<notin> url ` set d" by simp
    then have "\<forall>r \<in> set d. url r \<noteq> u" by blast
    then have "filter (\<lambda>r. url r = u) d = []" by (simp add: filter_empty_conv)
    with True show ?thesis by simp
  next
    case False
    with Cons show ?thesis by simp
  qed
qed

lemma has_url_count:
  "has_url d u \<Longrightarrow> 1 \<le> length (filter (\<lambda>r. url r = u) d)"
  by (induction d) (auto simp: has_url_def)

lemma example_insert_new:
  "insert_searxng_result SqlOk [] example_result = (True, [example_article])"
  by (simp add: insert_searxng_result_def insert_try_def dict_get_def has_url_def Let_def
        example_result_def example_article_def new_article_def)

lemma example_insert_again:
  "insert_searxng_result SqlOk [example_article] example_result = (False, [example_article])"
  by (simp add: insert_searxng_result_def insert_try_def dict_get_def has_url_def Let_def
        example_result_def example_article_def new_article_def)

text \<open>
  A new url is stored: when SQLite carries out the INSERT, the url is a non-empty
  string that is not stored yet and the six fields can be bound, the call returns true
  and the table has one more row, the last one, made of the fields of the search result.
\<close>

lemma insert_new_url:
  assumes "dict_get a ''url'' (PyStr []) = PyStr u" and "u \<noteq> []" and "\<not> has_url d u"
    and "list_all bindable
           [dict_get a ''title'' (PyStr []), dict_get a ''content'' (PyStr []),
              dict_get a ''publishedDate'' (PyStr []),
              source_name_of (dict_get a ''source'' (PyDict [])),
              dict_get a ''img_src'' (PyStr []), dict_get a ''thumbnail'' (PyStr [])]"
  shows "insert_searxng_result SqlOk d a =
           (True, d @ [new_article u
                (dict_get a ''title'' (PyStr [])) (dict_get a ''content'' (PyStr []))
                (dict_get a ''publishedDate'' (PyStr []))
                (source_name_of (dict_get a ''source'' (PyDict [])))
                (dict_get a ''img_src'' (PyStr [])) (dict_get a ''thumbnail'' (PyStr [])) a])"
  using assms by (simp add: insert_searxng_result_def insert_try_def Let_def)

text \<open>
  Claim C1. Two search results \<open>a\<close> and \<open>b\<close> with the same url \<open>u\<close> are inserted one
  after the other into a table whose urls are unique. The first call returns true
  exactly when it added a row (the table is one row longer, the new row is the last one
  and has url \<open>u\<close>, which was not stored before); when it returns false the table is
  unchanged. A new url is stored: when SQLite carries out the first INSERT, \<open>u\<close> is
  not empty and not stored yet, and the fields of \<open>a\<close> can be bound, the first call
  returns true and appends the row made of the fields of \<open>a\<close>. A call for a url that is
  already stored returns false and leaves the table as it is, so after a first call that
  inserted, the second call reports "not new", changes nothing, and exactly one row has
  url \<open>u\<close>. Whether \<open>u\<close> was stored before or not, when SQLite carries out the first
  INSERT of a non-empty \<open>u\<close> with fields that can be bound, the second call reports
  "not new", changes nothing, and exactly one row has url \<open>u\<close> after the two calls. In
  every case at most one row has url \<open>u\<close>.
\<close>

theorem insert_if_new_idempotent:
  assumes "distinct (map url d)"
    and "dict_get a ''url'' (PyStr []) = PyStr u"
    and "dict_get b ''url'' (PyStr []) = PyStr u"
    and "insert_searxng_result oc1 d a = (r1, d1)"
    and "insert_searxng_result oc2 d1 b = (r2, d2)"
  shows "(r1 \<longleftrightarrow> length d1 = Suc (length d))
       \<and> (\<not> r1 \<longrightarrow> d1 = d)
       \<and> (r1 \<longrightarrow> \<not> has_url d u \<and> (\<exists>row. url row = u \<and> d1 = d @ [row]))
       \<and> (oc1 = SqlOk \<and> u \<noteq> [] \<and> \<not> has_url d u
            \<and> list_all bindable
                  [dict_get a ''title'' (PyStr []), dict_get a ''content'' (PyStr []),
              dict_get a ''publishedDate'' (PyStr []),
              source_name_of (dict_get a ''source'' (PyDict [])),
              dict_get a ''img_src'' (PyStr []), dict_get a ''thumbnail'' (PyStr [])]
           \<longrightarrow> r1 \<and> d1 = d @ [new_article u
                (dict_get a ''title'' (PyStr [])) (dict_get a ''content'' (PyStr []))
                (dict_get a ''publishedDate'' (PyStr []))
                (source_name_of (dict_get a ''source'' (PyDict [])))
                (dict_get a ''img_src'' (PyStr [])) (dict_get a ''thumbnail'' (PyStr [])) a])
       \<and> (has_url d1 u \<longrightarrow> \<not> r2 \<and> d2 = d1)
       \<and> (r1 \<longrightarrow> \<not> r2 \<and> d2 = d1 \<and> length (filter (\<lambda>r. url r = u) d2) = 1)
       \<and> (oc1 = SqlOk \<and> u \<noteq> []
            \<and> list_all bindable
                  [dict_get a ''title'' (PyStr []), dict_get a ''content'' (PyStr []),
              dict_get a ''publishedDate'' (PyStr []),
              source_name_of (dict_get a ''source'' (PyDict [])),
              dict_get a ''img_src'' (PyStr []), dict_get a ''thumbnail'' (PyStr [])]
           \<longrightarrow> \<not> r2 \<and> d2 = d1 \<and> length (filter (\<lambda>r. url r = u) d2) = 1)
       \<and> length (filter (\<lambda>r. url r = u) d2) \<le> 1"
proof -
  note c1 = insert_result_cases[OF assms(4)]
  have dd1: "distinct (map url d1)" by (rule insert_distinct[OF assms(4) assms(1)])
  have dd2: "distinct (map url d2)" by (rule insert_distinct[OF assms(5) dd1])
  have p1: "r1 \<longleftrightarrow> length d1 = Suc (length d)" using c1 by auto
  have p2: "\<not> r1 \<longrightarrow> d1 = d" using c1 by auto
  have p3: "r1 \<longrightarrow> \<not> has_url d u \<and> (\<exists>row. url row = u \<and> d1 = d @ [row])"
    using c1 assms(2) by auto
  have n: "oc1 = SqlOk \<and> u \<noteq> [] \<and> \<not> has_url d u
            \<and> list_all bindable
                  [dict_get a ''title'' (PyStr []), dict_get a ''content'' (PyStr []),
              dict_get a ''publishedDate'' (PyStr []),
              source_name_of (dict_get a ''source'' (PyDict [])),
              dict_get a ''img_src'' (PyStr []), dict_get a ''thumbnail'' (PyStr [])]
           \<longrightarrow> r1 \<and> d1 = d @ [new_article u
                (dict_get a ''title'' (PyStr [])) (dict_get a ''content'' (PyStr []))
                (dict_get a ''publishedDate'' (PyStr []))
                (source_name_of (dict_get a ''source'' (PyDict [])))
                (dict_get a ''img_src'' (PyStr [])) (dict_get a ''thumbnail'' (PyStr [])) a]"
  proof (intro impI, elim conjE)
    assume "oc1 = SqlOk" and "u \<noteq> []" and "\<not> has_url d u"
      and "list_all bindable
             [dict_get a ''title'' (PyStr []), dict_get a ''content'' (PyStr []),
              dict_get a ''publishedDate'' (PyStr []),
              source_name_of (dict_get a ''source'' (PyDict [])),
              dict_get a ''img_src'' (PyStr []), dict_get a ''thumbnail'' (PyStr [])]"
    from insert_new_url[OF assms(2) this(2,3,4)] assms(4) \<open>oc1 = SqlOk\<close>
    show "r1 \<and> d1 = d @ [new_article u
                (dict_get a ''title'' (PyStr [])) (dict_get a ''content'' (PyStr []))
                (dict_get a ''publishedDate'' (PyStr []))
                (source_name_of (dict_get a ''source'' (PyDict [])))
                (dict_get a ''img_src'' (PyStr [])) (dict_get a ''thumbnail'' (PyStr [])) a]"
      by simp
  qed
  have p4: "has_url d1 u \<longrightarrow> \<not> r2 \<and> d2 = d1"
    using insert_stored_url[OF assms(3), of d1 oc2] assms(5) by auto
  have h1: "r1 \<longrightarrow> has_url d1 u" using p3 by (auto simp: has_url_def)
  have p6: "length (filter (\<lambda>r. url r = u) d2) \<le> 1" by (rule distinct_url_count[OF dd2])
  have p5: "r1 \<longrightarrow> \<not> r2 \<and> d2 = d1 \<and> length (filter (\<lambda>r. url r = u) d2) = 1"
    using h1 p4 p6 has_url_count[of d1 u] by auto
  have h2: "has_url d u \<longrightarrow> has_url d1 u"
    using insert_stored_url[OF assms(2), of d oc1] assms(4) by auto
  have p7: "oc1 = SqlOk \<and> u \<noteq> []
            \<and> list_all bindable
                  [dict_get a ''title'' (PyStr []), dict_get a ''content'' (PyStr []),
              dict_get a ''publishedDate'' (PyStr []),
              source_name_of (dict_get a ''source'' (PyDict [])),
              dict_get a ''img_src'' (PyStr []), dict_get a ''thumbnail'' (PyStr [])]
           \<longrightarrow> \<not> r2 \<and> d2 = d1 \<and> length (filter (\<lambda>r. url r = u) d2) = 1"
  proof (intro impI)
    assume q: "oc1 = SqlOk \<and> u \<noteq> []
            \<and> list_all bindable
                  [dict_get a ''title'' (PyStr []), dict_get a ''content'' (PyStr []),
              dict_get a ''publishedDate'' (PyStr []),
              source_name_of (dict_get a ''source'' (PyDict [])),
              dict_get a ''img_src'' (PyStr []), dict_get a ''thumbnail'' (PyStr [])]"
    have "has_url d1 u"
    proof (cases "has_url d u")
      case True
      with h2 show ?thesis by blast
    next
      case False
      with q n have r1 by blast
      with h1 show ?thesis by blast
    qed
    with p4 have e: "\<not> r2 \<and> d2 = d1" by blast
    with \<open>has_url d1 u\<close> has_url_count[of d1 u] p6
    show "\<not> r2 \<and> d2 = d1 \<and> length (filter (\<lambda>r. url r = u) d2) = 1" by auto
  qed
  show ?thesis using p1 p2 p3 n p4 p5 p7 p6 by (intro conjI)
qed

text \<open>
  An instance: the example result is inserted into the table that holds another
  article, and then a different search result with the same url.
\<close>

theorem insert_if_new_idempotent_witness:
  "distinct (map url [example_other])
   \<and> dict_get example_result ''url'' (PyStr []) = PyStr ''https://a.test/1''
   \<and> dict_get example_duplicate ''url'' (PyStr []) = PyStr ''https://a.test/1''
   \<and> example_duplicate \<noteq> example_result
   \<and> \<not> has_url [example_other] ''https://a.test/1''
   \<and> insert_searxng_result SqlOk [example_other] example_result
       = (True, [example_other, example_article])
   \<and> insert_searxng_result SqlOk [example_other, example_article] example_duplicate
       = (False, [example_other, example_article])
   \<and> length (filter (\<lambda>r. url r = ''https://a.test/1'') [example_other, example_article]) = 1"
proof -
  let ?u = "''https://a.test/1''"
  let ?p1 = "insert_searxng_result SqlOk [example_other] example_result"
  let ?p2 = "insert_searxng_result SqlOk (snd ?p1) example_duplicate"
  have h1: "distinct (map url [example_other])" by simp
  have h2: "dict_get example_result ''url'' (PyStr []) = PyStr ?u"
    by (simp add: dict_get_def example_result_def)
  have h3: "dict_get example_duplicate ''url'' (PyStr []) = PyStr ?u"
    by (simp add: dict_get_def example_duplicate_def)
  have h4: "?p1 = (fst ?p1, snd ?p1)" by (rule prod.collapse[symmetric])
  have h5: "?p2 = (fst ?p2, snd ?p2)" by (rule prod.collapse[symmetric])
  have ne: "example_duplicate \<noteq> example_result"
    by (simp add: example_duplicate_def example_result_def)
  have nu: "\<not> has_url [example_other] ?u"
    by (simp add: has_url_def example_other_def example_article_def)
  have bi: "list_all bindable
      [dict_get example_result ''title'' (PyStr []), dict_get example_result ''content'' (PyStr []),
       dict_get example_result ''publishedDate'' (PyStr []),
       source_name_of (dict_get example_result ''source'' (PyDict [])),
       dict_get example_result ''img_src'' (PyStr []),
       dict_get example_result ''thumbnail'' (PyStr [])]"
    by (simp add: dict_get_def example_result_def)
  have row: "new_article ?u (dict_get example_result ''title'' (PyStr []))
       (dict_get example_result ''content'' (PyStr []))
       (dict_get example_result ''publishedDate'' (PyStr []))
       (source_name_of (dict_get example_result ''source'' (PyDict [])))
       (dict_get example_result ''img_src'' (PyStr []))
       (dict_get example_result ''thumbnail'' (PyStr [])) example_result = example_article"
    by (simp add: new_article_def dict_get_def example_result_def example_article_def)
  have q: "SqlOk = SqlOk \<and> ?u \<noteq> [] \<and> \<not> has_url [example_other] ?u \<and> list_all bindable
      [dict_get example_result ''title'' (PyStr []), dict_get example_result ''content'' (PyStr []),
       dict_get example_result ''publishedDate'' (PyStr []),
       source_name_of (dict_get example_result ''source'' (PyDict [])),
       dict_get example_result ''img_src'' (PyStr []),
       dict_get example_result ''thumbnail'' (PyStr [])]"
    using nu bi by simp
  note t = insert_if_new_idempotent[OF h1 h2 h3 h4 h5]
  from t[THEN conjunct2, THEN conjunct2, THEN conjunct2, THEN conjunct1] q
  have s: "fst ?p1 \<and> snd ?p1 = [example_other] @ [example_article]"
    unfolding row by (rule mp)
  then have e1: "?p1 = (True, [example_other, example_article])"
    by (simp add: prod_eq_iff)
  from s have r1: "fst ?p1" by (rule conjunct1)
  from t[THEN conjunct2, THEN conjunct2, THEN conjunct2, THEN conjunct2, THEN conjunct2,
         THEN conjunct1] r1
  have s2: "\<not> fst ?p2 \<and> snd ?p2 = snd ?p1
      \<and> length (filter (\<lambda>r. url r = ?u) (snd ?p2)) = 1"
    by (rule mp)
  from s s2 have e2: "insert_searxng_result SqlOk [example_other, example_article] example_duplicate
       = (False, [example_other, example_article])"
    by (simp add: prod_eq_iff)
  from s have d1: "snd ?p1 = [example_other, example_article]" by simp
  note s2' = s2[unfolded d1]
  have c: "length (filter (\<lambda>r. url r = ?u) [example_other, example_article]) = 1"
    using s2'[THEN conjunct2, THEN conjunct2]
    unfolding s2'[THEN conjunct2, THEN conjunct1] .
  show ?thesis using h1 h2 h3 ne nu e1 e2 c by (intro conjI)
qed

section \<open>The article table: marking\<close>

lemma url_set_processed: "url (set_processed s ec em r) = url r"
  by (simp add: set_processed_def)

lemma mark_ok:
  "mark_caught SqlOk d u s ec em =
     map (\<lambda>r. if url r = u then set_processed s ec em r else r) d"
  by (simp add: mark_caught_def mark_try_def)

lemma mark_error: "mark_caught SqlError d u s ec em = d"
  by (simp add: mark_caught_def mark_try_def)

lemma lookup_map:
  assumes "\<And>r. url (f r) = url r"
  shows "lookup (map f d) v = map_option f (lookup d v)"
  by (induction d) (auto simp: lookup_def assms)

lemma lookup_mark_ok:
  "lookup (mark_caught SqlOk d u s ec em) v =
     (if v = u then map_option (set_processed s ec em) (lookup d u) else lookup d v)"
proof -
  let ?f = "\<lambda>r. if url r = u then set_processed s ec em r else r"
  have u: "\<And>r. url (?f r) = url r" by (simp add: url_set_processed)
  have "lookup (map ?f d) v = map_option ?f (lookup d v)" by (rule lookup_map[OF u])
  moreover have "\<And>r. lookup d v = Some r \<Longrightarrow> url r = v"
    by (auto simp: lookup_def dest: find_Some_iff[THEN iffD1])
  ultimately show ?thesis by (cases "lookup d v") (auto simp: mark_ok)
qed

lemma mark_urls: "map url (mark_caught oc d u s ec em) = map url d"
  by (cases oc) (simp_all add: mark_ok mark_error url_set_processed o_def)

lemma mark_twice:
  "mark_caught oc (mark_caught oc d u s ec em) u s ec em
     = mark_caught oc d u s ec em"
  by (cases oc) (auto simp: mark_ok mark_error url_set_processed set_processed_def)

lemma mark_opened:
  "mark_as_processed (Opened oc) d u s ec em = Returns (mark_caught oc d u s ec em)"
  by (simp add: mark_as_processed_def)

lemma mark_cannot_open: "mark_as_processed CannotOpen d u s ec em = Raises"
  by (simp add: mark_as_processed_def)

text \<open>
  Claim C2 as stated fails: \<open>mark_as_processed\<close> has no test of the \<open>processed\<close>
  column, so on a record that is already processed it overwrites
  \<open>trafilatura_success\<close>, \<open>extracted_content\<close> and \<open>extracted_metadata\<close>. Here the
  processed example row, extracted with success, is marked again as failed.
\<close>

theorem mark_as_processed_noop_counterexample:
  "processed example_processed
   \<and> mark_as_processed (Opened SqlOk) [example_processed] ''https://a.test/1'' False None None
       = Returns [example_processed\<lparr> trafilatura_success := False, extracted_content := None,
                                       extracted_metadata := None \<rparr>]
   \<and> mark_caught SqlOk [example_processed] ''https://a.test/1'' False None None
       \<noteq> [example_processed]
   \<and> map trafilatura_success
        (mark_caught SqlOk [example_processed] ''https://a.test/1'' False None None) = [False]
   \<and> map extracted_content
        (mark_caught SqlOk [example_processed] ''https://a.test/1'' False None None) = [None]
   \<and> map extracted_metadata
        (mark_caught SqlOk [example_processed] ''https://a.test/1'' False None None) = [None]"
  by (simp add: mark_as_processed_def mark_caught_def mark_try_def set_processed_def
        example_processed_def example_article_def)

text \<open>
  Claim C2, amended. Once the database is open, the method returns the table that the
  \<open>try\<close> with its handler leaves (\<open>mark_caught\<close>). When SQLite carries out the
  UPDATE, the record stored under \<open>u\<close> gets \<open>processed = true\<close> and the three given
  values, whether or not it was processed before, and the record under any other url is
  unchanged. The call never adds, removes or renames a record; repeating the same call
  changes nothing further. An error raised by the UPDATE or by the commit is caught:
  the method returns and the table is as before. An error in opening the database
  comes before the \<open>try\<close> and is not caught: the method raises.
\<close>

theorem mark_as_processed_overwrites:
  "mark_as_processed (Opened oc) d u success ec em
     = Returns (mark_caught oc d u success ec em)
   \<and> lookup (mark_caught SqlOk d u success ec em) v =
     (if v = u
      then map_option (\<lambda>r. r\<lparr> processed := True, trafilatura_success := success,
                               extracted_content := ec, extracted_metadata := em \<rparr>) (lookup d u)
      else lookup d v)
   \<and> map url (mark_caught oc d u success ec em) = map url d
   \<and> mark_caught oc (mark_caught oc d u success ec em) u success ec em
       = mark_caught oc d u success ec em
   \<and> mark_try SqlError d u success ec em = Raises
   \<and> mark_caught SqlError d u success ec em = d
   \<and> mark_as_processed (Opened SqlError) d u success ec em = Returns d
   \<and> mark_as_processed CannotOpen d u success ec em = Raises"
proof -
  have "set_processed success ec em = (\<lambda>r. r\<lparr> processed := True, trafilatura_success := success,
                               extracted_content := ec, extracted_metadata := em \<rparr>)"
    by (rule ext) (simp add: set_processed_def)
  then show ?thesis
    using lookup_mark_ok[of d u success ec em v] mark_urls[of oc d u success ec em]
      mark_twice[of oc d u success ec em] mark_error[of d u success ec em]
    by (simp add: mark_try_def mark_opened mark_cannot_open)
qed

theorem mark_as_processed_overwrites_witness:
  "mark_as_processed (Opened SqlOk) [example_article] ''https://a.test/1'' True
     (Some ''full text'') (Some example_metadata) = Returns [example_processed]
   \<and> lookup (mark_caught SqlOk [example_article] ''https://a.test/1'' True (Some ''full text'')
            (Some example_metadata)) ''https://a.test/1'' = Some example_processed"
  using mark_as_processed_overwrites[of SqlOk "[example_article]" "''https://a.test/1''" True
          "Some ''full text''" "Some example_metadata" "''https://a.test/1''"]
  by (simp add: lookup_def example_processed_def example_article_def mark_ok set_processed_def)

section \<open>The extraction engine\<close>

lemma build_metadata_fields:
  assumes "build_metadata env a tm src s = Returns clean"
  shows "md_trafilatura_success clean = s \<and> md_content_source clean = src \<and> md_url clean = url a"
proof (cases "py_or (meta_get tm tm_description) (content a)")
  case None
  with assms show ?thesis by (simp add: build_metadata_def)
next
  case (Some description)
  with assms show ?thesis by (auto simp: build_metadata_def)
qed

lemma finish_extract_cases:
  assumes "finish_extract env d a tm fc src s = Returns (res, d')"
  shows "\<exists>out oc. res = Some out \<and> out_id out = url a \<and> page_content out = fc
           \<and> md_trafilatura_success (metadata out) = s \<and> md_content_source (metadata out) = src
           \<and> sql_update env (url a) = Opened oc
           \<and> d' = mark_caught oc d (url a) s (if s then Some fc else None) (Some (metadata out))"
proof (cases "build_metadata env a tm src s")
  case Raises
  with assms show ?thesis by (simp add: finish_extract_def)
next
  case (Returns clean)
  let ?out = "\<lparr> out_id = url a, page_content = fc, metadata = clean \<rparr>"
  show ?thesis
  proof (cases "sql_update env (url a)")
    case CannotOpen
    with Returns assms show ?thesis by (simp add: finish_extract_def mark_cannot_open)
  next
    case (Opened oc)
    with Returns assms have r: "res = Some ?out"
      and d: "d' = mark_caught oc d (url a) s (if s then Some fc else None) (Some clean)"
      by (simp_all add: finish_extract_def mark_opened)
    from build_metadata_fields[OF Returns] r d Opened
    have "res = Some ?out \<and> out_id ?out = url a \<and> page_content ?out = fc
           \<and> md_trafilatura_success (metadata ?out) = s \<and> md_content_source (metadata ?out) = src
           \<and> sql_update env (url a) = Opened oc
           \<and> d' = mark_caught oc d (url a) s (if s then Some fc else None) (Some (metadata ?out))"
      by simp
    then show ?thesis by blast
  qed
qed

lemma extract_try_alt:
  "extract_try env d a =
     (case trafilatura_step env (fetch_with_strategy env (url a)) of
        Raises \<Rightarrow> Raises
      | Returns (tc, tm) \<Rightarrow>
          if truthy_text tc then
            (case tc of
               None \<Rightarrow> Raises
             | Some fc \<Rightarrow> finish_extract env d a tm fc ''trafilatura'' True)
          else
            (case py_or (content a) (title a) of
               None \<Rightarrow> Returns (None, d)
             | Some fc \<Rightarrow>
                 if fc = [] then Returns (None, d)
                 else finish_extract env d a tm fc ''searxng_fallback'' False))"
proof (cases "trafilatura_step env (fetch_with_strategy env (url a))")
  case Raises
  then show ?thesis by (simp add: extract_try_def)
next
  case (Returns p)
  obtain tc tm where p: "p = (tc, tm)" by (cases p)
  show ?thesis
  proof (cases tc)
    case None
    with Returns p show ?thesis by (simp add: extract_try_def fallback_extract_def)
  next
    case (Some fc)
    with Returns p show ?thesis by (simp add: extract_try_def fallback_extract_def)
  qed
qed

lemma extract_try_cases:
  assumes "extract_try env d a = Returns (res, d')"
  shows "(res = None \<and> d' = d) \<or>
         (\<exists>out oc. res = Some out \<and> out_id out = url a \<and> page_content out \<noteq> []
            \<and> md_content_source (metadata out) =
                (if md_trafilatura_success (metadata out) then ''trafilatura'' else ''searxng_fallback'')
            \<and> sql_update env (url a) = Opened oc
            \<and> d' = mark_caught oc d (url a)
                     (md_trafilatura_success (metadata out))
                     (if md_trafilatura_success (metadata out) then Some (page_content out) else None)
                     (Some (metadata out)))"
proof (cases "trafilatura_step env (fetch_with_strategy env (url a))")
  case Raises
  with assms show ?thesis by (simp add: extract_try_alt)
next
  case (Returns p)
  obtain tc tm where p: "p = (tc, tm)" by (cases p)
  show ?thesis
  proof (cases "truthy_text tc")
    case True
    then obtain fc where tc: "tc = Some fc" and fc: "fc \<noteq> []" by (cases tc) auto
    from assms Returns p tc fc
    have "finish_extract env d a tm fc ''trafilatura'' True = Returns (res, d')"
      by (simp add: extract_try_alt)
    from finish_extract_cases[OF this] fc show ?thesis by auto
  next
    case False
    show ?thesis
    proof (cases "py_or (content a) (title a)")
      case None
      with assms Returns p False show ?thesis by (simp add: extract_try_alt)
    next
      case (Some fc)
      show ?thesis
      proof (cases "fc = []")
        case True
        with assms Returns p False Some show ?thesis by (simp add: extract_try_alt)
      next
        case nonempty: False
        with assms Returns p False Some
        have "finish_extract env d a tm fc ''searxng_fallback'' False = Returns (res, d')"
          by (simp add: extract_try_alt)
        from finish_extract_cases[OF this] nonempty show ?thesis by auto
      qed
    qed
  qed
qed

lemma extract_cases:
  assumes "extract_and_format_enhanced env d a = (res, d')"
  shows "(res = Returns None \<and> d' = d) \<or> (res = Raises \<and> d' = d) \<or>
         (res = Returns None
            \<and> (\<exists>oc. sql_update_handler env (url a) = Opened oc
                  \<and> d' = mark_caught oc d (url a) False None None)) \<or>
         (\<exists>out oc. res = Returns (Some out) \<and> out_id out = url a \<and> page_content out \<noteq> []
            \<and> md_content_source (metadata out) =
                (if md_trafilatura_success (metadata out) then ''trafilatura'' else ''searxng_fallback'')
            \<and> sql_update env (url a) = Opened oc
            \<and> d' = mark_caught oc d (url a)
                     (md_trafilatura_success (metadata out))
                     (if md_trafilatura_success (metadata out) then Some (page_content out) else None)
                     (Some (metadata out)))"
proof (cases "url a = []")
  case True
  with assms show ?thesis by (simp add: extract_and_format_enhanced_def)
next
  case False
  show ?thesis
  proof (cases "extract_try env d a")
    case Raises
    show ?thesis
    proof (cases "sql_update_handler env (url a)")
      case CannotOpen
      with Raises False assms show ?thesis
        by (simp add: extract_and_format_enhanced_def mark_cannot_open)
    next
      case (Opened oc)
      with Raises False assms show ?thesis
        by (simp add: extract_and_format_enhanced_def mark_opened)
    qed
  next
    case (Returns r)
    obtain x dx where r: "r = (x, dx)" by (cases r)
    with Returns False assms have e: "extract_try env d a = Returns (x, d')" and x: "res = Returns x"
      by (simp_all add: extract_and_format_enhanced_def)
    from extract_try_cases[OF e] x show ?thesis by blast
  qed
qed

lemma trafilatura_step_not_downloaded:
  "\<not> truthy_text downloaded \<Longrightarrow> trafilatura_step env downloaded = Returns (None, None)"
  by (cases downloaded) (auto simp: trafilatura_step_def)

lemma extract_try_fallback:
  assumes "\<not> truthy_text (fetch_with_strategy env (url a))"
  shows "extract_try env d a =
     (case py_or (content a) (title a) of
        None \<Rightarrow> Returns (None, d)
      | Some fc \<Rightarrow> if fc = [] then Returns (None, d)
                   else finish_extract env d a None fc ''searxng_fallback'' False)"
  using trafilatura_step_not_downloaded[OF assms, of env]
  by (simp add: extract_try_alt)

lemma fetch_both_none:
  assumes "fetch_url env u False = Returns None" and "fetch_url env u True = Returns None"
  shows "fetch_with_strategy env u = None"
  using assms by (simp add: fetch_with_strategy_def)

lemma fetch_raises_none:
  assumes "fetch_url env u False = Raises"
  shows "fetch_with_strategy env u = None"
  using assms by (simp add: fetch_with_strategy_def)

lemma example_offline_extract:
  "extract_and_format_enhanced offline [example_article] example_article =
     (Returns (Some \<lparr> out_id = ''https://a.test/1'', page_content = ''snippet text'',
                       metadata = fallback_metadata \<rparr>), [example_fallback])"
  by (simp add: extract_and_format_enhanced_def extract_try_alt trafilatura_step_def
        fetch_with_strategy_def finish_extract_def build_metadata_def meta_get_def py_or_def
        get_domain_def mark_as_processed_def mark_caught_def mark_try_def set_processed_def
        offline_def example_article_def example_fallback_def fallback_metadata_def
        example_metadata_def)

text \<open>
  Claim C8. When \<open>fetch_with_strategy\<close> returns \<open>None\<close> (both downloads returned
  \<open>None\<close>, or one of them raised) and the stored snippet and title are both empty
  (NULL or the empty string), \<open>extract_and_format_enhanced\<close> returns \<open>None\<close> and
  leaves the table as it was: it does not mark the article. An unprocessed article of
  the table is therefore still among the unprocessed articles afterwards.
\<close>

theorem empty_fallback_not_marked:
  assumes "fetch_with_strategy env (url a) = None"
    and "\<not> truthy_text (content a)" and "\<not> truthy_text (title a)"
  shows "extract_and_format_enhanced env d a = (Returns None, d)
       \<and> (a \<in> set d \<and> \<not> processed a \<longrightarrow>
            a \<in> set (get_unprocessed_articles (snd (extract_and_format_enhanced env d a)) None))"
proof -
  have f: "\<not> truthy_text (fetch_with_strategy env (url a))" using assms(1) by simp
  have "\<not> truthy_text (py_or (content a) (title a))"
    using assms(2,3) by (simp add: py_or_def)
  then have "extract_try env d a = Returns (None, d)"
    using extract_try_fallback[OF f, of d]
    by (cases "py_or (content a) (title a)") auto
  then have "extract_and_format_enhanced env d a = (Returns None, d)"
    by (simp add: extract_and_format_enhanced_def)
  then show ?thesis by (simp add: get_unprocessed_articles_def)
qed

theorem empty_fallback_not_marked_witness:
  "fetch_with_strategy offline (url example_empty) = None
   \<and> extract_and_format_enhanced offline [example_empty] example_empty
       = (Returns None, [example_empty])
   \<and> example_empty \<in> set (get_unprocessed_articles [example_empty] None)"
proof -
  have f: "fetch_with_strategy offline (url example_empty) = None"
    by (simp add: fetch_with_strategy_def offline_def)
  have c: "\<not> truthy_text (content example_empty)" by (simp add: example_empty_def)
  have t: "\<not> truthy_text (title example_empty)" by (simp add: example_empty_def)
  have p: "\<not> processed example_empty" by (simp add: example_empty_def example_article_def)
  from empty_fallback_not_marked[OF f c t, of "[example_empty]"] f p
  show ?thesis by (simp add: get_unprocessed_articles_def)
qed

text \<open>
  Claim C4 fails on the code for an article whose snippet is NULL. The fallback of
  step B handles \<open>None\<close> (\<open>content or title\<close> gives the title \<open>T\<close>), but the
  \<open>description\<close> entry of step C slices \<open>None\<close>, which raises; the handler then marks
  the article as processed and failed with nothing stored, and the function returns
  \<open>None\<close> instead of a record whose content is the title.
\<close>

theorem null_snippet_extract:
  "insert_searxng_result SqlOk [] example_null_result = (True, [example_null_snippet])
   \<and> fetch_url offline (url example_null_snippet) False = Returns None
   \<and> fetch_url offline (url example_null_snippet) True = Returns None
   \<and> content example_null_snippet = None \<and> title example_null_snippet = Some ''T''
   \<and> extract_and_format_enhanced offline [example_null_snippet] example_null_snippet =
       (Returns None, [example_null_snippet\<lparr> processed := True \<rparr>])"
proof -
  have i: "insert_searxng_result SqlOk [] example_null_result = (True, [example_null_snippet])"
    by (simp add: insert_searxng_result_def insert_try_def dict_get_def has_url_def Let_def
        example_null_result_def example_null_snippet_def example_article_def new_article_def)
  have e: "extract_and_format_enhanced offline [example_null_snippet] example_null_snippet =
       (Returns None, [example_null_snippet\<lparr> processed := True \<rparr>])"
    by (simp add: extract_and_format_enhanced_def extract_try_alt trafilatura_step_def
        fetch_with_strategy_def finish_extract_def build_metadata_def meta_get_def py_or_def
        get_domain_def mark_as_processed_def mark_caught_def mark_try_def set_processed_def
        offline_def example_article_def example_null_snippet_def)
  have f: "fetch_url offline (url example_null_snippet) False = Returns None
      \<and> fetch_url offline (url example_null_snippet) True = Returns None
      \<and> content example_null_snippet = None \<and> title example_null_snippet = Some ''T''"
    by (simp add: offline_def example_null_snippet_def example_article_def)
  from i f e show ?thesis by (simp only: simp_thms)
qed

text \<open>
  For a snippet that is not NULL the fallback is as claim C4 says: when both downloads
  return \<open>None\<close> and the database opens at step E, the record returned has as content
  the snippet, or the title when the snippet is empty, and the table is the one that
  the UPDATE with \<open>success = False\<close> and no extracted content leaves.
\<close>

lemma fallback_when_snippet_not_null:
  assumes "url a \<noteq> []"
    and "fetch_url env (url a) False = Returns None"
    and "fetch_url env (url a) True = Returns None"
    and "content a = Some c"
    and "py_or (content a) (title a) = Some fc" and "fc \<noteq> []"
    and "sql_update env (url a) = Opened oc"
  shows "\<exists>md. extract_and_format_enhanced env d a =
           (Returns (Some \<lparr> out_id = url a, page_content = fc, metadata = md \<rparr>),
            mark_caught oc d (url a) False None (Some md))
         \<and> md_content_source md = ''searxng_fallback'' \<and> \<not> md_trafilatura_success md"
proof -
  have f: "\<not> truthy_text (fetch_with_strategy env (url a))"
    using fetch_both_none[OF assms(2,3)] by simp
  have d: "py_or (meta_get None tm_description) (content a) = Some c"
    using assms(4) by (simp add: py_or_def meta_get_def)
  then obtain md where md: "build_metadata env a None ''searxng_fallback'' False = Returns md"
    by (simp add: build_metadata_def)
  have "extract_and_format_enhanced env d a =
           (Returns (Some \<lparr> out_id = url a, page_content = fc, metadata = md \<rparr>),
            mark_caught oc d (url a) False None (Some md))"
    using assms(1,5,6,7) md extract_try_fallback[OF f, of d]
    by (simp add: extract_and_format_enhanced_def finish_extract_def mark_opened)
  with build_metadata_fields[OF md] show ?thesis by blast
qed

section \<open>The extracted columns of the tables the program produces\<close>

lemma insert_try_new_row:
  assumes "insert_try oc d a = Returns (True, d')"
  shows "\<exists>u t c p s i th. d' = d @ [new_article u t c p s i th a]"
proof -
  let ?u = "dict_get a ''url'' (PyStr [])"
  from assms have tr: "truthy ?u"
    by (cases "truthy ?u") (simp_all add: insert_try_def)
  show ?thesis
  proof (cases ?u)
    case PyNone
    with tr show ?thesis by simp
  next
    case (PyStr us)
    with assms tr show ?thesis
      by (simp add: insert_try_def Let_def split: if_splits) blast
  next
    case (PyDict x)
    with assms tr show ?thesis by (simp add: insert_try_def Let_def)
  qed
qed

lemma insert_rows:
  assumes "insert_searxng_result oc d a = (r, d')"
  shows "d' = d \<or> (\<exists>u t c p s i th. d' = d @ [new_article u t c p s i th a])"
proof (cases "insert_try oc d a")
  case Raises
  with assms show ?thesis by (simp add: insert_searxng_result_def)
next
  case (Returns x)
  with assms have x: "insert_try oc d a = Returns (r, d')" by (simp add: insert_searxng_result_def)
  show ?thesis
  proof (cases r)
    case True
    with x insert_try_new_row[of oc d a d'] show ?thesis by simp
  next
    case False
    have "d' = d" using x False
      by (auto simp: insert_try_def Let_def split: if_splits pyval.splits)
    then show ?thesis by simp
  qed
qed

lemma new_article_ok: "row_ok (new_article u t c p s i th a)"
  by (simp add: row_ok_def new_article_def)

lemma mark_row_ok:
  assumes "\<forall>r \<in> set d. row_ok r" and "s \<longrightarrow> ec \<noteq> None \<and> em \<noteq> None" and "ec \<noteq> None \<longrightarrow> s"
  shows "\<forall>r \<in> set (mark_caught oc d u s ec em). row_ok r"
proof (cases oc)
  case SqlOk
  have "row_ok (set_processed s ec em r)" for r
    using assms(2,3) by (simp add: row_ok_def set_processed_def)
  with assms(1) show ?thesis by (auto simp: SqlOk mark_ok)
next
  case SqlError
  with assms(1) show ?thesis by (simp add: mark_error)
qed

lemma extract_table:
  assumes "extract_and_format_enhanced env d a = (res, d')"
  obtains "d' = d"
  | oc s ec em where "d' = mark_caught oc d (url a) s ec em"
      and "s \<longrightarrow> ec \<noteq> None \<and> em \<noteq> None" and "ec \<noteq> None \<longrightarrow> s"
proof -
  from extract_cases[OF assms] show thesis
  proof (elim disjE exE conjE)
    assume "res = Returns None" and "d' = d"
    then show thesis using that(1) by simp
  next
    assume "res = Raises" and "d' = d"
    then show thesis using that(1) by simp
  next
    fix oc
    assume "d' = mark_caught oc d (url a) False None None"
    then show thesis using that(2)[of oc False None None] by simp
  next
    fix out oc
    assume "d' = mark_caught oc d (url a)
                     (md_trafilatura_success (metadata out))
                     (if md_trafilatura_success (metadata out) then Some (page_content out) else None)
                     (Some (metadata out))"
    then show thesis
      using that(2)[of oc "md_trafilatura_success (metadata out)"
          "if md_trafilatura_success (metadata out) then Some (page_content out) else None"
          "Some (metadata out)"]
      by simp
  qed
qed

lemma reachable_row_ok: "reachable d \<Longrightarrow> \<forall>r \<in> set d. row_ok r"
proof (induction rule: reachable.induct)
  case reachable_init
  then show ?case by simp
next
  case (reachable_insert d oc searx_article is_new d')
  from insert_rows[OF reachable_insert.hyps(2)] reachable_insert.IH
  show ?case by (auto simp: new_article_ok)
next
  case (reachable_extract d env a result d')
  from reachable_extract.hyps(2) show ?case
  proof (cases rule: extract_table)
    case 1
    with reachable_extract.IH show ?thesis by simp
  next
    case (2 oc s ec em)
    with mark_row_ok[OF reachable_extract.IH, of s ec em] show ?thesis by simp
  qed
qed

lemma extract_update:
  assumes "extract_and_format_enhanced env d a = (Returns (Some out), d')"
  shows "md_content_source (metadata out) =
           (if md_trafilatura_success (metadata out) then ''trafilatura'' else ''searxng_fallback'')
         \<and> (\<exists>oc. sql_update env (url a) = Opened oc
               \<and> d' = mark_caught oc d (url a) (md_trafilatura_success (metadata out))
                     (if md_trafilatura_success (metadata out) then Some (page_content out)
                      else None)
                     (Some (metadata out)))"
proof -
  from extract_cases[OF assms] show ?thesis
  proof (elim disjE exE conjE)
    assume "Returns (Some out) = Returns None"
    then show ?thesis by simp
  next
    assume "Returns (Some out) = Raises"
    then show ?thesis by simp
  next
    assume "Returns (Some out) = Returns None"
    then show ?thesis by simp
  next
    fix out' oc
    assume o: "Returns (Some out) = Returns (Some out')"
      and c: "md_content_source (metadata out') =
                (if md_trafilatura_success (metadata out') then ''trafilatura''
                 else ''searxng_fallback'')"
      and q: "sql_update env (url a) = Opened oc"
      and m: "d' = mark_caught oc d (url a)
                     (md_trafilatura_success (metadata out'))
                     (if md_trafilatura_success (metadata out') then Some (page_content out') else None)
                     (Some (metadata out'))"
    from o have "out' = out" by simp
    with c q m show ?thesis by blast
  qed
qed

lemma example_online_extract:
  "extract_and_format_enhanced online [example_article] example_article =
     (Returns (Some \<lparr> out_id = ''https://a.test/1'', page_content = ''full text'',
                       metadata = example_metadata \<rparr>), [example_processed])"
  by (simp add: extract_and_format_enhanced_def extract_try_alt trafilatura_step_def
        fetch_with_strategy_def finish_extract_def build_metadata_def meta_get_def py_or_def
        get_domain_def mark_as_processed_def mark_caught_def mark_try_def set_processed_def
        online_def offline_def example_article_def example_processed_def example_metadata_def)

lemma reachable_example: "reachable [example_article]"
  using reachable_insert[OF reachable_init example_insert_new] .

lemma reachable_example_fallback: "reachable [example_fallback]"
  using reachable_extract[OF reachable_example example_offline_extract] .

lemma reachable_example_processed: "reachable [example_processed]"
  using reachable_extract[OF reachable_example example_online_extract] .

text \<open>
  Claim C3 as stated fails for \<open>extracted_metadata\<close>: step E passes
  \<open>json.dumps(clean_metadata)\<close> on the fallback path as well, so the example article,
  processed through the snippet fallback, has \<open>trafilatura_success = false\<close> and its
  metadata stored.
\<close>

theorem fallback_stores_metadata_counterexample:
  "reachable [example_fallback]
   \<and> snd (extract_and_format_enhanced offline [example_article] example_article) = [example_fallback]
   \<and> processed example_fallback \<and> \<not> trafilatura_success example_fallback
   \<and> extracted_content example_fallback = None
   \<and> extracted_metadata example_fallback = Some fallback_metadata"
  using reachable_example_fallback example_offline_extract
  by (simp add: example_fallback_def example_article_def)

text \<open>
  Claim C3, amended. In every table the program can produce, and for every row of it:
  \<open>extracted_content\<close> is set only when extraction succeeded; a row with
  \<open>trafilatura_success\<close> is processed and has both columns set; an unprocessed row has
  both columns unset. Every extraction that returns a record is on one of two paths,
  told by the flag \<open>trafilatura_success\<close> of the record's metadata: Trafilatura or the
  snippet fallback. On both paths, when SQLite carries out the UPDATE of step E, the
  row of the article is afterwards processed, with \<open>trafilatura_success\<close> the flag of
  the record and \<open>extracted_metadata\<close> the metadata of the record; its
  \<open>extracted_content\<close> is the text of the record on the Trafilatura path and unset on
  the fallback path.
\<close>

theorem extracted_fields_invariant:
  assumes "reachable d" and "r \<in> set d"
  shows "(extracted_content r \<noteq> None \<longrightarrow> trafilatura_success r)
       \<and> (trafilatura_success r \<longrightarrow>
            processed r \<and> extracted_content r \<noteq> None \<and> extracted_metadata r \<noteq> None)
       \<and> (\<not> processed r \<longrightarrow> extracted_content r = None \<and> extracted_metadata r = None)
       \<and> (extract_and_format_enhanced env d a = (Returns (Some out), d') \<longrightarrow>
            md_content_source (metadata out) =
              (if md_trafilatura_success (metadata out) then ''trafilatura''
               else ''searxng_fallback''))
       \<and> (extract_and_format_enhanced env d a = (Returns (Some out), d')
            \<and> sql_update env (url a) = Opened SqlOk \<longrightarrow>
          lookup d' (url a) =
            map_option
              (\<lambda>x. x\<lparr> processed := True,
                       trafilatura_success := md_trafilatura_success (metadata out),
                       extracted_content :=
                         (if md_trafilatura_success (metadata out)
                          then Some (page_content out) else None),
                       extracted_metadata := Some (metadata out) \<rparr>)
              (lookup d (url a)))"
proof -
  from reachable_row_ok[OF assms(1)] assms(2) have "row_ok r" by blast
  then have inv: "(extracted_content r \<noteq> None \<longrightarrow> trafilatura_success r)
       \<and> (trafilatura_success r \<longrightarrow>
            processed r \<and> extracted_content r \<noteq> None \<and> extracted_metadata r \<noteq> None)
       \<and> (\<not> processed r \<longrightarrow> extracted_content r = None \<and> extracted_metadata r = None)"
    unfolding row_ok_def .
  have src: "extract_and_format_enhanced env d a = (Returns (Some out), d') \<longrightarrow>
            md_content_source (metadata out) =
              (if md_trafilatura_success (metadata out) then ''trafilatura''
               else ''searxng_fallback'')"
    using extract_update[of env d a out d'] by blast
  have st: "extract_and_format_enhanced env d a = (Returns (Some out), d')
            \<and> sql_update env (url a) = Opened SqlOk \<longrightarrow>
          lookup d' (url a) =
            map_option
              (\<lambda>x. x\<lparr> processed := True,
                       trafilatura_success := md_trafilatura_success (metadata out),
                       extracted_content :=
                         (if md_trafilatura_success (metadata out)
                          then Some (page_content out) else None),
                       extracted_metadata := Some (metadata out) \<rparr>)
              (lookup d (url a))"
  proof (intro impI, elim conjE)
    assume e: "extract_and_format_enhanced env d a = (Returns (Some out), d')"
      and q: "sql_update env (url a) = Opened SqlOk"
    let ?s = "md_trafilatura_success (metadata out)"
    let ?ec = "if ?s then Some (page_content out) else None"
    have sp: "set_processed ?s ?ec (Some (metadata out)) =
        (\<lambda>x. x\<lparr> processed := True, trafilatura_success := ?s, extracted_content := ?ec,
                 extracted_metadata := Some (metadata out) \<rparr>)"
      by (rule ext) (simp add: set_processed_def)
    from extract_update[OF e] q
    have "d' = mark_caught SqlOk d (url a) ?s ?ec (Some (metadata out))" by auto
    then have "lookup d' (url a) =
        map_option (set_processed ?s ?ec (Some (metadata out))) (lookup d (url a))"
      by (simp add: lookup_mark_ok)
    then show "lookup d' (url a) =
            map_option
              (\<lambda>x. x\<lparr> processed := True,
                       trafilatura_success := md_trafilatura_success (metadata out),
                       extracted_content :=
                         (if md_trafilatura_success (metadata out)
                          then Some (page_content out) else None),
                       extracted_metadata := Some (metadata out) \<rparr>)
              (lookup d (url a))"
      unfolding sp .
  qed
  from inv have i1: "extracted_content r \<noteq> None \<longrightarrow> trafilatura_success r"
    and i2: "trafilatura_success r \<longrightarrow>
            processed r \<and> extracted_content r \<noteq> None \<and> extracted_metadata r \<noteq> None"
    and i3: "\<not> processed r \<longrightarrow> extracted_content r = None \<and> extracted_metadata r = None"
    by (rule conjunct1, rule conjunct2[THEN conjunct1], rule conjunct2[THEN conjunct2])
  show ?thesis using i1 i2 i3 src st by (intro conjI)
qed

text \<open>
  Instances: the table of the successfully processed example row, for the rows with
  \<open>trafilatura_success\<close>, and the table of the fresh example row with an extraction
  on each of the two paths.
\<close>

theorem extracted_fields_invariant_witness:
  "reachable [example_processed] \<and> example_processed \<in> set [example_processed]
   \<and> trafilatura_success example_processed \<and> processed example_processed
   \<and> extracted_content example_processed = Some ''full text''
   \<and> extracted_metadata example_processed = Some example_metadata
   \<and> reachable [example_article] \<and> \<not> processed example_article
   \<and> extracted_content example_article = None \<and> extracted_metadata example_article = None
   \<and> lookup [example_processed] (url example_article)
       = map_option (\<lambda>x. x\<lparr> processed := True, trafilatura_success := True,
                              extracted_content := Some ''full text'',
                              extracted_metadata := Some example_metadata \<rparr>)
           (lookup [example_article] (url example_article))
   \<and> lookup [example_fallback] (url example_article)
       = map_option (\<lambda>x. x\<lparr> processed := True, trafilatura_success := False,
                              extracted_content := None,
                              extracted_metadata := Some fallback_metadata \<rparr>)
           (lookup [example_article] (url example_article))"
proof -
  let ?on = "\<lparr> out_id = ''https://a.test/1'', page_content = ''full text'',
                metadata = example_metadata \<rparr>"
  let ?off = "\<lparr> out_id = ''https://a.test/1'', page_content = ''snippet text'',
                 metadata = fallback_metadata \<rparr>"
  have mp: "example_processed \<in> set [example_processed]" by simp
  have ma: "example_article \<in> set [example_article]" by simp
  have ts: "trafilatura_success example_processed"
    by (simp add: example_processed_def)
  have np: "\<not> processed example_article" by (simp add: example_article_def)
  have qon: "sql_update online (url example_article) = Opened SqlOk"
    by (simp add: online_def offline_def)
  have qoff: "sql_update offline (url example_article) = Opened SqlOk"
    by (simp add: offline_def)
  note p = extracted_fields_invariant[OF reachable_example_processed mp]
  note on = extracted_fields_invariant[OF reachable_example ma, of online example_article
      ?on "[example_processed]"]
  note off = extracted_fields_invariant[OF reachable_example ma, of offline example_article
      ?off "[example_fallback]"]
  from p ts have c1: "processed example_processed" by blast
  have c2: "extracted_content example_processed = Some ''full text''"
    and c2': "extracted_metadata example_processed = Some example_metadata"
    by (simp_all add: example_processed_def)
  from on np have c3: "extracted_content example_article = None"
    and c3': "extracted_metadata example_article = None" by blast+
  from on example_online_extract qon
  have l1: "lookup [example_processed] (url example_article) =
      map_option
        (\<lambda>x. x\<lparr> processed := True,
                 trafilatura_success := md_trafilatura_success (metadata ?on),
                 extracted_content :=
                   (if md_trafilatura_success (metadata ?on)
                    then Some (page_content ?on) else None),
                 extracted_metadata := Some (metadata ?on) \<rparr>)
        (lookup [example_article] (url example_article))" by blast
  from off example_offline_extract qoff
  have l2: "lookup [example_fallback] (url example_article) =
      map_option
        (\<lambda>x. x\<lparr> processed := True,
                 trafilatura_success := md_trafilatura_success (metadata ?off),
                 extracted_content :=
                   (if md_trafilatura_success (metadata ?off)
                    then Some (page_content ?off) else None),
                 extracted_metadata := Some (metadata ?off) \<rparr>)
        (lookup [example_article] (url example_article))" by blast
  have son: "md_trafilatura_success (metadata ?on)" by (simp add: example_metadata_def)
  have soff: "\<not> md_trafilatura_success (metadata ?off)"
    by (simp add: fallback_metadata_def)
  from l1 son have l1': "lookup [example_processed] (url example_article)
       = map_option (\<lambda>x. x\<lparr> processed := True, trafilatura_success := True,
                              extracted_content := Some ''full text'',
                              extracted_metadata := Some example_metadata \<rparr>)
           (lookup [example_article] (url example_article))" by simp
  from l2 soff have l2': "lookup [example_fallback] (url example_article)
       = map_option (\<lambda>x. x\<lparr> processed := True, trafilatura_success := False,
                              extracted_content := None,
                              extracted_metadata := Some fallback_metadata \<rparr>)
           (lookup [example_article] (url example_article))" by simp
  show ?thesis
    using reachable_example_processed mp ts c1 c2 c2' reachable_example np c3 c3' l1' l2'
    by (intro conjI)
qed

section \<open>The handler of the extraction engine\<close>

lemma unprocessed_subset:
  "set (get_unprocessed_articles d lim) \<subseteq> {r \<in> set d. \<not> processed r}"
proof (cases lim)
  case None
  then show ?thesis by (auto simp: get_unprocessed_articles_def)
next
  case (Some n)
  have "set (take n (filter (\<lambda>r. \<not> processed r) d)) \<subseteq> set (filter (\<lambda>r. \<not> processed r) d)"
    by (rule set_take_subset)
  with Some show ?thesis by (auto simp: get_unprocessed_articles_def Let_def)
qed

lemma marked_rows:
  assumes "row' \<in> set (mark_caught oc d u s ec em)"
  shows "\<exists>row \<in> set d. url row' = url row \<and> (processed row \<longrightarrow> processed row')
           \<and> (oc = SqlOk \<and> url row = u \<longrightarrow> processed row')"
proof (cases oc)
  case SqlError
  with assms show ?thesis by (auto simp: mark_error)
next
  case SqlOk
  with assms have "row' \<in> set (mark_caught SqlOk d u s ec em)" by simp
  then obtain row where r: "row \<in> set d"
    and row: "row' = (if url row = u then set_processed s ec em row else row)"
    unfolding mark_ok by (auto simp only: set_map image_iff)
  show ?thesis
  proof (cases "url row = u")
    case True
    with row r show ?thesis by (auto simp: set_processed_def)
  next
    case False
    with row r show ?thesis by auto
  qed
qed

lemma has_url_map: "has_url d u \<longleftrightarrow> u \<in> set (map url d)"
  by (auto simp: has_url_def)

lemma fetch_exception_none:
  assumes "fetch_url env u False = Raises
           \<or> (fetch_url env u False = Returns None \<and> fetch_url env u True = Raises)"
  shows "fetch_with_strategy env u = None"
  using assms by (auto simp: fetch_with_strategy_def)

text \<open>
  A url that is stored with all its rows processed stays so in every later table: an
  insertion of a stored url is ignored, and \<open>mark_as_processed\<close> never resets the
  \<open>processed\<close> column.
\<close>

lemma later_processed:
  assumes "later d d'" and "has_url d u" and "\<forall>row \<in> set d. url row = u \<longrightarrow> processed row"
  shows "has_url d' u \<and> (\<forall>row \<in> set d'. url row = u \<longrightarrow> processed row)"
  using assms
proof (induction rule: later.induct)
  case (later_refl d)
  then show ?case by simp
next
  case (later_insert d d1 oc searx_article is_new d2)
  from later_insert.IH[OF later_insert.prems]
  have h: "has_url d1 u" and p: "\<forall>row \<in> set d1. url row = u \<longrightarrow> processed row" by simp_all
  from insert_result_cases[OF later_insert.hyps(2)]
  consider "d2 = d1" | u' row where "\<not> has_url d1 u'" and "url row = u'" and "d2 = d1 @ [row]"
    by auto
  then show ?case
  proof cases
    case 1
    with h p show ?thesis by simp
  next
    case 2
    from 2(1) h have "u' \<noteq> u" by auto
    with 2(2,3) h p show ?thesis by (auto simp: has_url_def)
  qed
next
  case (later_extract d d1 env a result d2)
  from later_extract.IH[OF later_extract.prems]
  have h: "has_url d1 u" and p: "\<forall>row \<in> set d1. url row = u \<longrightarrow> processed row" by simp_all
  from later_extract.hyps(2) show ?case
  proof (cases rule: extract_table)
    case 1
    with h p show ?thesis by simp
  next
    case (2 oc s ec em)
    have "map url d2 = map url d1" by (simp add: 2(1) mark_urls)
    with h have h2: "has_url d2 u" by (simp only: has_url_map)
    have "\<forall>row \<in> set d2. url row = u \<longrightarrow> processed row"
    proof (intro ballI impI)
      fix row' assume "row' \<in> set d2" and u: "url row' = u"
      with 2(1) have "row' \<in> set (mark_caught oc d1 (url a) s ec em)" by simp
      from marked_rows[OF this] obtain row where "row \<in> set d1" and "url row' = url row"
        and "processed row \<longrightarrow> processed row'" by blast
      with p u show "processed row'" by auto
    qed
    with h2 show ?thesis by simp
  qed
qed

lemma example_parser_raises:
  "extract_try parser_raises [example_article] example_article = Raises"
  by (simp add: extract_try_alt trafilatura_step_def fetch_with_strategy_def parser_raises_def
      offline_def example_article_def)

text \<open>
  With the database closed, the snippet fallback of the example article builds its
  metadata and raises in the call of step E.
\<close>

lemma example_store_closed:
  "extract_try store_closed [example_article] example_article = Raises"
  by (simp add: extract_try_alt trafilatura_step_def fetch_with_strategy_def finish_extract_def
      build_metadata_def meta_get_def py_or_def mark_as_processed_def store_closed_def
      offline_def example_article_def)

text \<open>
  When the database cannot be opened, the call of step E raises inside the \<open>try\<close>,
  and the handler's own call raises out of the function, with the table as it was.
\<close>

lemma step_e_cannot_open:
  assumes "build_metadata env a tm src s = Returns clean"
    and "sql_update env (url a) = CannotOpen"
  shows "finish_extract env d a tm fc src s = Raises"
  using assms by (simp add: finish_extract_def mark_cannot_open)

lemma handler_cannot_open:
  assumes "url a \<noteq> []" and "extract_try env d a = Raises"
    and "sql_update_handler env (url a) = CannotOpen"
  shows "extract_and_format_enhanced env d a = (Raises, d)"
  using assms by (simp add: extract_and_format_enhanced_def mark_cannot_open)

text \<open>
  Claim C10 as stated fails for an exception during the fetch: \<open>fetch_with_strategy\<close>
  catches it and returns \<open>None\<close>, so the extraction goes on with the snippet fallback,
  returns a record and stores its metadata, instead of returning \<open>None\<close> with nothing
  stored.
\<close>

theorem fetch_exception_counterexample:
  "fetch_url fetch_raises (url example_article) False = Raises
   \<and> extract_and_format_enhanced fetch_raises [example_article] example_article =
     (Returns (Some \<lparr> out_id = ''https://a.test/1'', page_content = ''snippet text'',
                       metadata = fallback_metadata \<rparr>), [example_fallback])
   \<and> extracted_metadata example_fallback = Some fallback_metadata"
  by (simp add: extract_and_format_enhanced_def extract_try_alt trafilatura_step_def
        fetch_with_strategy_def finish_extract_def build_metadata_def meta_get_def py_or_def
        get_domain_def mark_as_processed_def mark_caught_def mark_try_def set_processed_def
        fetch_raises_def offline_def example_article_def example_fallback_def
        fallback_metadata_def example_metadata_def)

text \<open>
  Claim C10, amended. An exception reaches the handler of
  \<open>extract_and_format_enhanced\<close> after the url check when the body of the \<open>try\<close>
  raises: in the parse, in the construction of the metadata, or in the call of
  \<open>mark_as_processed\<close> of step E. An exception during the fetch does not reach the
  handler: it makes \<open>fetch_with_strategy\<close> return \<open>None\<close>, as a failed download does.
  When the database opens for the handler's call of \<open>mark_as_processed(url,
  success=False)\<close>, the function returns \<open>None\<close>, with the table that the UPDATE leaves.
  When SQLite carries out that UPDATE, the row of the article is processed, not
  successful, with \<open>extracted_content\<close> and \<open>extracted_metadata\<close> unset; and for an
  article that is stored in the table, in every later table, whatever insertions and
  extractions follow (a run of the pipeline is a sequence of them), the url is still
  stored, every row with it is processed, and no row with it is among the unprocessed
  articles that the next run would read. When the
  database cannot be opened for the handler's call, that call raises out of the
  function: nothing is returned and the table is as it was.
\<close>

theorem handler_marks_failed:
  assumes "url a \<noteq> []" and "extract_try env d a = Raises"
  shows "(sql_update_handler env (url a) = Opened oc \<longrightarrow>
            extract_and_format_enhanced env d a
              = (Returns None, mark_caught oc d (url a) False None None))
       \<and> (sql_update_handler env (url a) = Opened SqlOk \<longrightarrow>
            lookup (snd (extract_and_format_enhanced env d a)) (url a) =
              map_option (\<lambda>x. x\<lparr> processed := True, trafilatura_success := False,
                                    extracted_content := None, extracted_metadata := None \<rparr>)
                (lookup d (url a))
            \<and> (has_url d (url a) \<and> later (snd (extract_and_format_enhanced env d a)) d'' \<longrightarrow>
                 has_url d'' (url a)
                 \<and> (\<forall>row \<in> set d''. url row = url a \<longrightarrow> processed row)
                 \<and> (\<forall>row \<in> set (get_unprocessed_articles d'' lim). url row \<noteq> url a)))
       \<and> (sql_update_handler env (url a) = CannotOpen \<longrightarrow>
            extract_and_format_enhanced env d a = (Raises, d))
       \<and> (fetch_url env (url a) False = Raises
            \<or> (fetch_url env (url a) False = Returns None \<and> fetch_url env (url a) True = Raises)
           \<longrightarrow> fetch_with_strategy env (url a) = None)"
proof -
  have c: "sql_update_handler env (url a) = CannotOpen \<longrightarrow>
            extract_and_format_enhanced env d a = (Raises, d)"
    using assms by (simp add: extract_and_format_enhanced_def mark_cannot_open)
  have e: "sql_update_handler env (url a) = Opened oc \<longrightarrow>
            extract_and_format_enhanced env d a
              = (Returns None, mark_caught oc d (url a) False None None)"
    using assms by (simp add: extract_and_format_enhanced_def mark_opened)
  have sp: "set_processed False None None =
        (\<lambda>x. x\<lparr> processed := True, trafilatura_success := False, extracted_content := None,
                 extracted_metadata := None \<rparr>)"
    by (rule ext) (simp add: set_processed_def)
  have m: "sql_update_handler env (url a) = Opened SqlOk \<longrightarrow>
            lookup (snd (extract_and_format_enhanced env d a)) (url a) =
              map_option (\<lambda>x. x\<lparr> processed := True, trafilatura_success := False,
                                    extracted_content := None, extracted_metadata := None \<rparr>)
                (lookup d (url a))
            \<and> (has_url d (url a) \<and> later (snd (extract_and_format_enhanced env d a)) d'' \<longrightarrow>
                 has_url d'' (url a)
                 \<and> (\<forall>row \<in> set d''. url row = url a \<longrightarrow> processed row)
                 \<and> (\<forall>row \<in> set (get_unprocessed_articles d'' lim). url row \<noteq> url a))"
  proof
    assume q: "sql_update_handler env (url a) = Opened SqlOk"
    let ?dq = "mark_caught SqlOk d (url a) False None None"
    have s: "snd (extract_and_format_enhanced env d a) = ?dq"
      using assms q by (simp add: extract_and_format_enhanced_def mark_opened)
    have l: "lookup ?dq (url a) = map_option (set_processed False None None) (lookup d (url a))"
      by (simp add: lookup_mark_ok)
    have n: "has_url d (url a) \<and> later ?dq d'' \<longrightarrow>
               has_url d'' (url a)
               \<and> (\<forall>row \<in> set d''. url row = url a \<longrightarrow> processed row)
               \<and> (\<forall>row \<in> set (get_unprocessed_articles d'' lim). url row \<noteq> url a)"
    proof (intro impI, elim conjE)
      assume h: "has_url d (url a)" and lt: "later ?dq d''"
      have "map url ?dq = map url d" by (rule mark_urls)
      with h have hq: "has_url ?dq (url a)" by (simp only: has_url_map)
      have pq: "\<forall>row \<in> set ?dq. url row = url a \<longrightarrow> processed row"
      proof (intro ballI impI)
        fix row' assume r: "row' \<in> set ?dq" and u: "url row' = url a"
        from marked_rows[OF r] u show "processed row'" by auto
      qed
      from later_processed[OF lt hq pq]
      have st: "has_url d'' (url a)"
        and all: "\<forall>row \<in> set d''. url row = url a \<longrightarrow> processed row" by simp_all
      have un: "\<forall>row \<in> set (get_unprocessed_articles d'' lim). url row \<noteq> url a"
      proof
        fix row assume "row \<in> set (get_unprocessed_articles d'' lim)"
        with unprocessed_subset[of d'' lim] have r: "row \<in> set d''" and np: "\<not> processed row"
          by blast+
        with all show "url row \<noteq> url a" by blast
      qed
      show "has_url d'' (url a)
               \<and> (\<forall>row \<in> set d''. url row = url a \<longrightarrow> processed row)
               \<and> (\<forall>row \<in> set (get_unprocessed_articles d'' lim). url row \<noteq> url a)"
        using st all un by (intro conjI)
    qed
    show "lookup (snd (extract_and_format_enhanced env d a)) (url a) =
              map_option (\<lambda>x. x\<lparr> processed := True, trafilatura_success := False,
                                    extracted_content := None, extracted_metadata := None \<rparr>)
                (lookup d (url a))
            \<and> (has_url d (url a) \<and> later (snd (extract_and_format_enhanced env d a)) d'' \<longrightarrow>
                 has_url d'' (url a)
                 \<and> (\<forall>row \<in> set d''. url row = url a \<longrightarrow> processed row)
                 \<and> (\<forall>row \<in> set (get_unprocessed_articles d'' lim). url row \<noteq> url a))"
      unfolding s using l[unfolded sp] n by (rule conjI)
  qed
  have f: "fetch_url env (url a) False = Raises
            \<or> (fetch_url env (url a) False = Returns None \<and> fetch_url env (url a) True = Raises)
           \<longrightarrow> fetch_with_strategy env (url a) = None"
    using fetch_exception_none[of env "url a"] by blast
  show ?thesis using e m c f by (intro conjI)
qed

lemma example_fetch_null_raises:
  "extract_try fetch_raises [example_null_snippet] example_null_snippet = Raises"
  by (simp add: extract_try_alt trafilatura_step_def fetch_with_strategy_def finish_extract_def
      build_metadata_def meta_get_def py_or_def fetch_raises_def offline_def
      example_null_snippet_def example_article_def)

lemma example_later_insert:
  "insert_searxng_result SqlOk [example_article\<lparr> processed := True \<rparr>] example_result
     = (False, [example_article\<lparr> processed := True \<rparr>])"
  by (simp add: insert_searxng_result_def insert_try_def dict_get_def has_url_def Let_def
        example_result_def example_article_def new_article_def)

text \<open>
  Instances: the extraction raises in the parse, the handler marks the example row,
  and after one more insertion of the same search result the row is not among the
  unprocessed articles; with the database closed, the extraction raises at step E
  and the handler's call raises out of the function; with a fetch that raises and a
  NULL snippet, the fetch gives \<open>None\<close> and the exception that reaches the handler is
  the one of the metadata.
\<close>

theorem handler_marks_failed_witness:
  "url example_article \<noteq> []
   \<and> extract_try parser_raises [example_article] example_article = Raises
   \<and> sql_update_handler parser_raises (url example_article) = Opened SqlOk
   \<and> extract_and_format_enhanced parser_raises [example_article] example_article =
       (Returns None, [example_article\<lparr> processed := True \<rparr>])
   \<and> has_url [example_article] (url example_article)
   \<and> later [example_article\<lparr> processed := True \<rparr>] [example_article\<lparr> processed := True \<rparr>]
   \<and> has_url [example_article\<lparr> processed := True \<rparr>] (url example_article)
   \<and> list_all processed
         (filter (\<lambda>row. url row = url example_article) [example_article\<lparr> processed := True \<rparr>])
   \<and> filter (\<lambda>row. url row = url example_article)
         (get_unprocessed_articles [example_article\<lparr> processed := True \<rparr>] None) = []
   \<and> extract_try store_closed [example_article] example_article = Raises
   \<and> sql_update_handler store_closed (url example_article) = CannotOpen
   \<and> extract_and_format_enhanced store_closed [example_article] example_article =
       (Raises, [example_article])
   \<and> extract_try fetch_raises [example_null_snippet] example_null_snippet = Raises
   \<and> fetch_url fetch_raises (url example_null_snippet) False = Raises
   \<and> fetch_with_strategy fetch_raises (url example_null_snippet) = None"
proof -
  let ?d' = "[example_article\<lparr> processed := True \<rparr>]"
  let ?x = "extract_and_format_enhanced parser_raises [example_article] example_article"
  have u: "url example_article \<noteq> []" by (simp add: example_article_def)
  have q: "sql_update_handler parser_raises (url example_article) = Opened SqlOk"
    by (simp add: parser_raises_def offline_def)
  have q': "sql_update_handler store_closed (url example_article) = CannotOpen"
    by (simp add: store_closed_def offline_def)
  have m: "mark_caught SqlOk [example_article] (url example_article) False None None = ?d'"
    by (simp add: mark_caught_def mark_try_def set_processed_def example_article_def)
  have h: "has_url [example_article] (url example_article)" by (simp add: has_url_def)
  have lt: "later ?d' ?d'"
    by (rule later_insert[OF later_refl example_later_insert])
  note t = handler_marks_failed[OF u example_parser_raises, of SqlOk ?d' None]
  note t' = handler_marks_failed[OF u example_store_closed, of SqlOk ?d' None]
  from t have "sql_update_handler parser_raises (url example_article) = Opened SqlOk \<longrightarrow>
      ?x = (Returns None, mark_caught SqlOk [example_article] (url example_article) False None None)"
    by (rule conjunct1)
  with q have "?x = (Returns None,
      mark_caught SqlOk [example_article] (url example_article) False None None)"
    by (rule rev_mp)
  then have e: "?x = (Returns None, ?d')" by (simp only: m)
  then have s: "snd ?x = ?d'" by simp
  from lt have lt': "later (snd ?x) ?d'" by (simp only: s)
  from t have "sql_update_handler parser_raises (url example_article) = Opened SqlOk \<longrightarrow>
      lookup (snd ?x) (url example_article) =
        map_option (\<lambda>x. x\<lparr> processed := True, trafilatura_success := False,
                              extracted_content := None, extracted_metadata := None \<rparr>)
          (lookup [example_article] (url example_article))
      \<and> (has_url [example_article] (url example_article) \<and> later (snd ?x) ?d' \<longrightarrow>
           has_url ?d' (url example_article)
           \<and> (\<forall>row \<in> set ?d'. url row = url example_article \<longrightarrow> processed row)
           \<and> (\<forall>row \<in> set (get_unprocessed_articles ?d' None). url row \<noteq> url example_article))"
    by (rule conjunct2[THEN conjunct1])
  with q have "lookup (snd ?x) (url example_article) =
        map_option (\<lambda>x. x\<lparr> processed := True, trafilatura_success := False,
                              extracted_content := None, extracted_metadata := None \<rparr>)
          (lookup [example_article] (url example_article))
      \<and> (has_url [example_article] (url example_article) \<and> later (snd ?x) ?d' \<longrightarrow>
           has_url ?d' (url example_article)
           \<and> (\<forall>row \<in> set ?d'. url row = url example_article \<longrightarrow> processed row)
           \<and> (\<forall>row \<in> set (get_unprocessed_articles ?d' None). url row \<noteq> url example_article))"
    by (rule rev_mp)
  then have "has_url [example_article] (url example_article) \<and> later (snd ?x) ?d' \<longrightarrow>
           has_url ?d' (url example_article)
           \<and> (\<forall>row \<in> set ?d'. url row = url example_article \<longrightarrow> processed row)
           \<and> (\<forall>row \<in> set (get_unprocessed_articles ?d' None). url row \<noteq> url example_article)"
    by (rule conjunct2)
  moreover from h lt' have "has_url [example_article] (url example_article) \<and> later (snd ?x) ?d'"
    by (rule conjI)
  ultimately
  have n: "has_url ?d' (url example_article)
           \<and> (\<forall>row \<in> set ?d'. url row = url example_article \<longrightarrow> processed row)
           \<and> (\<forall>row \<in> set (get_unprocessed_articles ?d' None). url row \<noteq> url example_article)"
    by (rule mp)
  from n have n1: "has_url ?d' (url example_article)" by (rule conjunct1)
  from n have "\<forall>row \<in> set ?d'. url row = url example_article \<longrightarrow> processed row"
    by (rule conjunct2[THEN conjunct1])
  then have n2: "list_all processed (filter (\<lambda>row. url row = url example_article) ?d')"
    unfolding list_all_iff by auto
  from n
  have "\<forall>row \<in> set (get_unprocessed_articles ?d' None). url row \<noteq> url example_article"
    by (rule conjunct2[THEN conjunct2])
  then have n3: "filter (\<lambda>row. url row = url example_article)
      (get_unprocessed_articles ?d' None) = []"
    unfolding filter_empty_conv by blast
  from t' have "sql_update_handler store_closed (url example_article) = CannotOpen \<longrightarrow>
      extract_and_format_enhanced store_closed [example_article] example_article
        = (Raises, [example_article])"
    by (rule conjunct2[THEN conjunct2, THEN conjunct1])
  with q'
  have c: "extract_and_format_enhanced store_closed [example_article] example_article
        = (Raises, [example_article])"
    by (rule rev_mp)
  have u2: "url example_null_snippet \<noteq> []"
    by (simp add: example_null_snippet_def example_article_def)
  have fr: "fetch_url fetch_raises (url example_null_snippet) False = Raises"
    by (simp add: fetch_raises_def)
  then have "fetch_url fetch_raises (url example_null_snippet) False = Raises
      \<or> (fetch_url fetch_raises (url example_null_snippet) False = Returns None
         \<and> fetch_url fetch_raises (url example_null_snippet) True = Raises)"
    by (rule disjI1)
  with handler_marks_failed[OF u2 example_fetch_null_raises, of SqlOk ?d' None,
      THEN conjunct2, THEN conjunct2, THEN conjunct2]
  have fn: "fetch_with_strategy fetch_raises (url example_null_snippet) = None"
    by (rule mp)
  show ?thesis
    using u example_parser_raises q e h lt n1 n2 n3 example_store_closed q' c
      example_fetch_null_raises fr fn
    by (intro conjI)
qed

section \<open>The collector\<close>










section \<open>A run of the pipeline\<close>

lemma lookup_append_some: "lookup d v = Some r \<Longrightarrow> lookup (d @ xs) v = Some r"
  by (induction d) (auto simp: lookup_def split: if_splits)

lemma lookup_Some_mem: "lookup d v = Some r \<Longrightarrow> r \<in> set d \<and> url r = v"
  by (induction d) (auto simp: lookup_def split: if_splits)

lemma distinct_url_inj:
  assumes "distinct (map url d)" and "a \<in> set d" and "r \<in> set d" and "url a = url r"
  shows "a = r"
proof -
  from assms(1) have "inj_on url (set d)" by (simp add: distinct_map)
  from inj_onD[OF this assms(4) assms(2) assms(3)] show ?thesis .
qed

lemma lookup_distinct:
  assumes "distinct (map url d)" and "r \<in> set d"
  shows "lookup d (url r) = Some r"
proof (cases "lookup d (url r)")
  case None
  then have "\<not> (\<exists>x. x \<in> set d \<and> url x = url r)"
    by (simp add: lookup_def find_None_iff)
  with assms(2) show ?thesis by blast
next
  case (Some x)
  from lookup_Some_mem[OF Some] have "x \<in> set d" and "url x = url r" by simp_all
  from distinct_url_inj[OF assms(1) this(1) assms(2) this(2)] Some show ?thesis by simp
qed

lemma insert_keeps:
  assumes "insert_searxng_result oc d a = (b, d')" and "lookup d v = Some r"
  shows "lookup d' v = Some r"
  using insert_rows[OF assms(1)] lookup_append_some[OF assms(2)] assms(2) by auto

lemma insert_items_keeps:
  "insert_items env d items = (n, d') \<Longrightarrow> lookup d v = Some r \<Longrightarrow> lookup d' v = Some r"
proof (induction items arbitrary: d n d')
  case Nil
  then show ?case by simp
next
  case (Cons item items)
  obtain b d1 where i: "insert_searxng_result (sql_insert env item) d item = (b, d1)"
    by (cases "insert_searxng_result (sql_insert env item) d item")
  obtain m d2 where r: "insert_items env d1 items = (m, d2)"
    by (cases "insert_items env d1 items")
  from Cons.prems(1) i r have d: "d' = d2" by simp
  from Cons.IH[OF r insert_keeps[OF i Cons.prems(2)]] d show ?case by simp
qed

lemma insert_items_distinct:
  "insert_items env d items = (n, d') \<Longrightarrow> distinct (map url d) \<Longrightarrow> distinct (map url d')"
proof (induction items arbitrary: d n d')
  case Nil
  then show ?case by simp
next
  case (Cons item items)
  obtain b d1 where i: "insert_searxng_result (sql_insert env item) d item = (b, d1)"
    by (cases "insert_searxng_result (sql_insert env item) d item")
  obtain m d2 where r: "insert_items env d1 items = (m, d2)"
    by (cases "insert_items env d1 items")
  from Cons.prems(1) i r have d: "d' = d2" by simp
  from Cons.IH[OF r insert_distinct[OF i Cons.prems(2)]] d show ?case by simp
qed

lemma collect_pages_keeps:
  "collect_pages env topic su tr page k d = (n, d') \<Longrightarrow>
     (lookup d v = Some r \<longrightarrow> lookup d' v = Some r)
     \<and> (distinct (map url d) \<longrightarrow> distinct (map url d'))"
proof (induction k arbitrary: page d n d')
  case 0
  then show ?case by simp
next
  case (Suc k)
  show ?case
  proof (cases "get_searxng_news env topic su tr page = []")
    case True
    with Suc.prems show ?thesis by simp
  next
    case False
    obtain m d1 where i: "insert_items env d (get_searxng_news env topic su tr page) = (m, d1)"
      by (cases "insert_items env d (get_searxng_news env topic su tr page)")
    obtain t d2 where r: "collect_pages env topic su tr (Suc page) k d1 = (t, d2)"
      by (cases "collect_pages env topic su tr (Suc page) k d1")
    from Suc.prems False i r have d: "d' = d2" by (simp add: Let_def)
    from Suc.IH[OF r] insert_items_keeps[OF i, of v r] insert_items_distinct[OF i] d
    show ?thesis by blast
  qed
qed

lemma lookup_mark_other:
  "v \<noteq> u \<Longrightarrow> lookup (mark_caught oc d u s ec em) v = lookup d v"
  by (cases oc) (simp_all add: lookup_mark_ok mark_error)

lemma extract_keeps:
  assumes "extract_and_format_enhanced env d a = (res, d')"
  shows "map url d' = map url d \<and> (v \<noteq> url a \<longrightarrow> lookup d' v = lookup d v)"
  using assms
proof (cases rule: extract_table)
  case 1
  then show ?thesis by simp
next
  case (2 oc s ec em)
  then show ?thesis by (simp add: mark_urls lookup_mark_other)
qed

lemma process_loop_keeps:
  "process_loop env d articles acc = (res, d') \<Longrightarrow> \<forall>a \<in> set articles. url a \<noteq> v \<Longrightarrow>
     map url d' = map url d \<and> lookup d' v = lookup d v"
proof (induction articles arbitrary: d acc)
  case Nil
  then show ?case by simp
next
  case (Cons a articles)
  show ?case
  proof (cases "title a")
    case None
    with Cons.prems show ?thesis by simp
  next
    case (Some t)
    obtain out d1 where e: "extract_and_format_enhanced env d a = (out, d1)"
      by (cases "extract_and_format_enhanced env d a")
    from Cons.prems(2) have va: "v \<noteq> url a" and rest: "\<forall>a \<in> set articles. url a \<noteq> v"
      by auto
    from extract_keeps[OF e, of v] va
    have k1: "map url d1 = map url d" and k2: "lookup d1 v = lookup d v" by simp_all
    show ?thesis
    proof (cases out)
      case Raises
      with Cons.prems(1) Some e have "d' = d1" by simp
      with k1 k2 show ?thesis by simp
    next
      case (Returns x)
      obtain acc' where "process_loop env d1 articles acc' = (res, d')"
        using Cons.prems(1) Some e Returns by (cases x) auto
      from Cons.IH[OF this rest] k1 k2 show ?thesis by simp
    qed
  qed
qed

lemma process_stored_keeps:
  assumes "process_stored_articles env d lim = (res, d')"
    and "distinct (map url d)" and "r \<in> set d" and "processed r"
  shows "map url d' = map url d \<and> lookup d' (url r) = Some r"
proof -
  have l: "lookup d (url r) = Some r" by (rule lookup_distinct[OF assms(2,3)])
  have n: "\<forall>a \<in> set (get_unprocessed_articles d lim). url a \<noteq> url r"
  proof
    fix a assume "a \<in> set (get_unprocessed_articles d lim)"
    with unprocessed_subset[of d lim] have a: "a \<in> set d" and np: "\<not> processed a" by blast+
    show "url a \<noteq> url r"
    proof
      assume "url a = url r"
      from distinct_url_inj[OF assms(2) a assms(3) this] np assms(4) show False by simp
    qed
  qed
  show ?thesis
  proof (cases "get_unprocessed_articles d lim = []")
    case True
    with assms(1) l show ?thesis by (simp add: process_stored_articles_def)
  next
    case False
    with assms(1) have "process_loop env d (get_unprocessed_articles d lim) [] = (res, d')"
      by (simp add: process_stored_articles_def Let_def)
    from process_loop_keeps[OF this n] l show ?thesis by simp
  qed
qed

lemma example_collect_nothing:
  "collect_searxng_articles offline d ''Gameloft'' ''http://searx'' 1 None = (0, d)"
  by (simp add: collect_searxng_articles_def get_searxng_news_def offline_def)

lemma example_other_extract:
  "extract_and_format_enhanced offline [example_processed, example_other] example_other =
     (Returns (Some \<lparr> out_id = ''https://a.test/2'', page_content = ''snippet text'',
              metadata = fallback_metadata\<lparr> md_url := ''https://a.test/2'' \<rparr> \<rparr>),
      [example_processed, example_other_fallback])"
  by (simp add: extract_and_format_enhanced_def extract_try_alt trafilatura_step_def
        fetch_with_strategy_def finish_extract_def build_metadata_def meta_get_def py_or_def
        get_domain_def mark_as_processed_def mark_caught_def mark_try_def set_processed_def
        offline_def example_article_def example_other_def example_other_fallback_def
        example_processed_def fallback_metadata_def example_metadata_def)

lemma example_process:
  "process_stored_articles offline [example_processed, example_other] None =
     (Returns [\<lparr> out_id = ''https://a.test/2'', page_content = ''snippet text'',
              metadata = fallback_metadata\<lparr> md_url := ''https://a.test/2'' \<rparr> \<rparr>],
      [example_processed, example_other_fallback])"
proof -
  have u: "get_unprocessed_articles [example_processed, example_other] None = [example_other]"
    by (simp add: get_unprocessed_articles_def example_processed_def example_other_def
        example_article_def)
  have t: "title example_other = Some ''T''" by (simp add: example_other_def example_article_def)
  show ?thesis
    by (simp add: process_stored_articles_def u t example_other_extract)
qed

lemma example_short_body: "length (py_strip ''snippet text'') < 50"
  by (simp add: py_strip_def is_space_def)

lemma example_run:
  "run_complete_pipeline offline example_uploader [example_processed, example_other] []
     ''Gameloft'' ''http://searx'' 1 None None
   = (Returns (), [example_processed, example_other_fallback], [])"
  by (simp add: run_complete_pipeline_def example_collect_nothing[unfolded One_nat_def]
      example_process
      process_and_upload_json_records_def record_chunks_def example_short_body
      example_uploader_def)

text \<open>
  Claim C5. In a table with unique urls, a record \<open>r\<close> that is processed is the
  record stored under its url, and after a run of \<open>run_complete_pipeline\<close> (collect,
  process the unprocessed articles, upload), whatever the collaborators do and whether
  or not the run raises, the record stored under that url is still \<open>r\<close>: none of its
  columns has changed, in particular \<open>extracted_content\<close> and \<open>trafilatura_success\<close>.
  The urls are still unique afterwards, so the same holds for every later run. The
  extraction phase reads only records with \<open>processed = false\<close>.
\<close>

theorem processed_records_never_altered:
  assumes "distinct (map url d)" and "r \<in> set d" and "processed r"
    and "run_complete_pipeline env up d vs topic searx_url max_pages time_range process_limit
           = (res, d', vs')"
  shows "lookup d (url r) = Some r \<and> lookup d' (url r) = Some r \<and> distinct (map url d')
       \<and> (\<forall>a \<in> set (get_unprocessed_articles x process_limit). \<not> processed a)"
proof -
  obtain n d1 where c: "collect_searxng_articles env d topic searx_url max_pages time_range = (n, d1)"
    by (cases "collect_searxng_articles env d topic searx_url max_pages time_range")
  obtain pr d2 where p: "process_stored_articles env d1 process_limit = (pr, d2)"
    by (cases "process_stored_articles env d1 process_limit")
  have l0: "lookup d (url r) = Some r" by (rule lookup_distinct[OF assms(1,2)])
  from c have c': "collect_pages env topic searx_url time_range 1 max_pages d = (n, d1)"
    by (simp add: collect_searxng_articles_def)
  from collect_pages_keeps[OF c', of "url r" r] l0 assms(1)
  have l1: "lookup d1 (url r) = Some r" and dd1: "distinct (map url d1)" by simp_all
  from lookup_Some_mem[OF l1] have m1: "r \<in> set d1" by simp
  from process_stored_keeps[OF p dd1 m1 assms(3)]
  have u2: "map url d2 = map url d1" and l2: "lookup d2 (url r) = Some r" by simp_all
  have "d' = d2"
    using assms(4) c p
    by (cases pr) (auto simp: run_complete_pipeline_def split: prod.splits if_splits)
  with l2 u2 dd1 have a: "lookup d' (url r) = Some r" and b: "distinct (map url d')" by simp_all
  have u: "\<forall>a \<in> set (get_unprocessed_articles x process_limit). \<not> processed a"
    using unprocessed_subset[of x process_limit] by blast
  show ?thesis using l0 a b u by (intro conjI)
qed

theorem processed_records_never_altered_witness:
  "distinct (map url [example_processed, example_other])
   \<and> processed example_processed
   \<and> run_complete_pipeline offline example_uploader [example_processed, example_other] []
        ''Gameloft'' ''http://searx'' 1 None None
      = (Returns (), [example_processed, example_other_fallback], [])
   \<and> lookup [example_processed, example_other_fallback] (url example_processed)
      = Some example_processed"
proof -
  have d: "distinct (map url [example_processed, example_other])"
    by (simp add: example_processed_def example_other_def example_article_def)
  have m: "example_processed \<in> set [example_processed, example_other]" by simp
  have p: "processed example_processed" by (simp add: example_processed_def)
  from processed_records_never_altered[OF d m p example_run]
  have "lookup [example_processed, example_other_fallback] (url example_processed)
      = Some example_processed"
    by (rule conjunct2[THEN conjunct1])
  with d p example_run show ?thesis by (simp only: simp_thms)
qed

section \<open>Chunking and upload\<close>

lemma py_strip_no_space:
  assumes "s \<noteq> []" and "\<not> is_space (hd s)" and "\<not> is_space (last s)"
  shows "py_strip s = s"
proof -
  have a: "dropWhile is_space s = s" using assms(2) by (simp add: dropWhile_eq_self_iff)
  have "\<not> is_space (hd (rev s))" using assms(1,3) by (simp add: hd_rev)
  then have b: "dropWhile is_space (rev s) = rev s" by (simp add: dropWhile_eq_self_iff)
  show ?thesis by (simp add: py_strip_def a b)
qed

lemma length_py_strip: "length (py_strip s) \<le> length s"
proof -
  have "length (dropWhile is_space (rev (dropWhile is_space s)))
          \<le> length (rev (dropWhile is_space s))"
    by (rule length_dropWhile_le)
  also have "\<dots> \<le> length s" by (simp add: length_dropWhile_le)
  finally show ?thesis by (simp add: py_strip_def)
qed

lemma py_strip_replicate:
  assumes "\<not> is_space c" shows "py_strip (replicate n c) = replicate n c"
proof (cases n)
  case 0
  then show ?thesis by (simp add: py_strip_def)
next
  case (Suc m)
  have "replicate n c \<noteq> []" using Suc by simp
  moreover have "hd (replicate n c) = c" using Suc by simp
  moreover have "last (replicate n c) = c" using Suc by simp
  ultimately show ?thesis using assms by (simp add: py_strip_no_space)
qed

lemma not_space_a: "\<not> is_space (CHR ''a'')" by (simp add: is_space_def)
lemma not_space_b: "\<not> is_space (CHR ''b'')" by (simp add: is_space_def)

lemma embed_documents_fails:
  "t \<in> set ts \<Longrightarrow> e t = Raises \<Longrightarrow> fst (embed_documents e ts) = Raises"
proof (induction ts)
  case Nil
  then show ?case by simp
next
  case (Cons x ts)
  show ?case
  proof (cases "e x")
    case Raises
    then show ?thesis by simp
  next
    case (Returns v)
    with Cons.prems have "t \<in> set ts" by auto
    from Cons.IH[OF this Cons.prems(2)] Returns show ?thesis
      by (cases "embed_documents e ts") simp
  qed
qed

lemma embed_documents_calls:
  "\<exists>rest. ts = snd (embed_documents e ts) @ rest"
proof (induction ts)
  case Nil
  then show ?case by simp
next
  case (Cons x ts)
  show ?case
  proof (cases "e x")
    case Raises
    then show ?thesis by simp
  next
    case (Returns v)
    obtain r calls where r: "embed_documents e ts = (r, calls)" by (cases "embed_documents e ts")
    from Cons.IH r obtain rest where "ts = calls @ rest" by auto
    with Returns r show ?thesis by (cases r) auto
  qed
qed

lemma example_long_chunks:
  "record_chunks (split_text failing_embedder) example_long_record =
     [(replicate 60 (CHR ''a''),
       \<lparr> cm_metadata = example_metadata, cm_source_id = ''https://a.test/1'' \<rparr>)]"
  by (simp add: record_chunks_def example_long_record_def failing_embedder_def
      example_uploader_def py_strip_replicate[OF not_space_a])

text \<open>
  Claim C6. When the embedding model raises on the text of one of the chunks of the
  batch, \<open>process_and_upload_json_records\<close> returns with the vector store as it was:
  no row is inserted. It ends with the error log line (or, when the clients could not
  be created, with that log line), and the texts on which the model was called are an
  initial part of the chunk texts: each chunk is tried at most once and none after the
  failure.
\<close>

theorem embedding_failure_inserts_nothing:
  assumes "c \<in> set (concat (map (record_chunks (split_text up)) records))"
    and "get_embedding up (fst c) = Raises"
  shows "\<exists>l calls rest.
           process_and_upload_json_records up vs records = (l, vs, calls)
           \<and> (l = UploadError \<or> l = ClientsFailed)
           \<and> (create_clients up = Returns () \<longrightarrow> l = UploadError)
           \<and> map fst (concat (map (record_chunks (split_text up)) records)) = calls @ rest"
proof -
  let ?chunks = "concat (map (record_chunks (split_text up)) records)"
  have cne: "?chunks \<noteq> []" using assms(1) by (metis empty_iff list.set(1))
  then have ne: "records \<noteq> []" by auto
  show ?thesis
  proof (cases "create_clients up")
    case Raises
    with ne have "process_and_upload_json_records up vs records = (ClientsFailed, vs, [])"
      by (simp add: process_and_upload_json_records_def)
    with Raises show ?thesis by simp
  next
    case (Returns u)
    from assms(1) have "fst c \<in> set (map fst ?chunks)" by (simp only: set_map) (rule imageI)
    from embed_documents_fails[of "fst c" "map fst ?chunks" "get_embedding up", OF this assms(2)]
    obtain calls where e: "embed_documents (get_embedding up) (map fst ?chunks) = (Raises, calls)"
      by (cases "embed_documents (get_embedding up) (map fst ?chunks)") auto
    from embed_documents_calls[of "map fst ?chunks" "get_embedding up"] e
    obtain rest where p: "map fst ?chunks = calls @ rest" by auto
    from ne cne Returns e
    have "process_and_upload_json_records up vs records = (UploadError, vs, calls)"
      by (simp add: process_and_upload_json_records_def Let_def)
    with p show ?thesis by simp
  qed
qed

theorem embedding_failure_inserts_nothing_witness:
  "get_embedding failing_embedder (replicate 60 (CHR ''a'')) = Raises
   \<and> process_and_upload_json_records failing_embedder [] [example_long_record]
       = (UploadError, [], [replicate 60 (CHR ''a'')])"
proof -
  let ?c = "(replicate 60 (CHR ''a''),
       \<lparr> cm_metadata = example_metadata, cm_source_id = ''https://a.test/1'' \<rparr>)"
  have m: "?c \<in> set (concat (map (record_chunks (split_text failing_embedder))
                                  [example_long_record]))"
    by (simp add: example_long_chunks)
  have r: "get_embedding failing_embedder (fst ?c) = Raises"
    by (simp add: failing_embedder_def)
  have cl: "create_clients failing_embedder = Returns ()"
    by (simp add: failing_embedder_def example_uploader_def)
  from embedding_failure_inserts_nothing[OF m r, of "[]"] cl
  obtain calls rest where
    p: "process_and_upload_json_records failing_embedder [] [example_long_record]
          = (UploadError, [], calls)"
    and q: "map fst (concat (map (record_chunks (split_text failing_embedder))
                                  [example_long_record])) = calls @ rest"
    by auto
  have ge: "get_embedding failing_embedder = (\<lambda>t. Raises)"
    by (simp add: failing_embedder_def)
  have d: "process_and_upload_json_records failing_embedder [] [example_long_record]
       = (UploadError, [], [replicate 60 (CHR ''a'')])"
    by (simp add: process_and_upload_json_records_def example_long_chunks cl ge Let_def)
  from p d r show ?thesis by simp
qed

lemma record_chunks_short:
  "page_content r = [] \<or> length (py_strip (page_content r)) < 50 \<Longrightarrow> record_chunks sp r = []"
  by (auto simp: record_chunks_def)

lemma record_chunks_long:
  assumes "page_content r \<noteq> []" and "50 \<le> length (py_strip (page_content r))"
  shows "map fst (record_chunks sp r)
           = filter (\<lambda>chunk. 20 < length (py_strip chunk)) (sp (page_content r))"
  using assms by (simp add: record_chunks_def Let_def o_def)

lemma strip_two_paragraphs: "py_strip two_paragraphs = two_paragraphs"
proof (rule py_strip_no_space)
  show "two_paragraphs \<noteq> []" by (simp add: two_paragraphs_def)
  show "\<not> is_space (hd two_paragraphs)" by (simp add: two_paragraphs_def not_space_a)
  show "\<not> is_space (last two_paragraphs)" by (simp add: two_paragraphs_def not_space_b)
qed

lemma split_two_paragraphs:
  "paragraph_splitter two_paragraphs = [replicate 490 (CHR ''a''), replicate 20 (CHR ''b'')]"
  by (simp add: paragraph_splitter_def two_paragraphs_def)

text \<open>
  Claim C7 as stated fails at a chunk of exactly 20 characters: the code keeps a chunk
  only when \<open>len(chunk.strip()) > 20\<close>. The body of 512 characters is split into its
  two paragraphs; the second one has 20 characters after trimming, which is not under
  20, and it is discarded.
\<close>

theorem chunk_of_twenty_counterexample:
  "paragraph_splitter (page_content example_two_paragraphs)
     = [replicate 490 (CHR ''a''), replicate 20 (CHR ''b'')]
   \<and> length (py_strip (replicate 20 (CHR ''b''))) = 20
   \<and> 50 \<le> length (py_strip (page_content example_two_paragraphs))
   \<and> map fst (record_chunks paragraph_splitter example_two_paragraphs)
       = [replicate 490 (CHR ''a'')]"
proof -
  have p: "page_content example_two_paragraphs = two_paragraphs"
    by (simp add: example_two_paragraphs_def)
  have l: "length two_paragraphs = 512" by (simp add: two_paragraphs_def)
  have ne: "two_paragraphs \<noteq> []" by (simp add: two_paragraphs_def)
  show ?thesis
    by (simp add: record_chunks_def p strip_two_paragraphs split_two_paragraphs l ne
        py_strip_replicate[OF not_space_a] py_strip_replicate[OF not_space_b])
qed

text \<open>
  Claim C7, amended. A record whose body is empty or has fewer than 50 characters
  after trimming yields no chunk; so does every body of exactly 49 characters. For any
  other record, the chunks kept for embedding are, in order, the chunks of the
  splitter with more than 20 characters after trimming: a chunk of 20 characters or
  fewer after trimming is discarded.
\<close>

theorem chunk_filtering:
  "(page_content r = [] \<or> length (py_strip (page_content r)) < 50 \<longrightarrow> record_chunks sp r = [])
   \<and> (length (page_content r) = 49 \<longrightarrow> record_chunks sp r = [])
   \<and> (page_content r \<noteq> [] \<and> 50 \<le> length (py_strip (page_content r)) \<longrightarrow>
        map fst (record_chunks sp r)
          = filter (\<lambda>chunk. 20 < length (py_strip chunk)) (sp (page_content r)))
   \<and> (\<forall>chunk. length (py_strip chunk) \<le> 20 \<longrightarrow> chunk \<notin> fst ` set (record_chunks sp r))"
proof -
  have a: "page_content r = [] \<or> length (py_strip (page_content r)) < 50
             \<longrightarrow> record_chunks sp r = []"
    using record_chunks_short[of r sp] by blast
  have b: "length (page_content r) = 49 \<longrightarrow> record_chunks sp r = []"
  proof
    assume "length (page_content r) = 49"
    with length_py_strip[of "page_content r"] have "length (py_strip (page_content r)) < 50"
      by simp
    then show "record_chunks sp r = []" using record_chunks_short[of r sp] by blast
  qed
  have c: "page_content r \<noteq> [] \<and> 50 \<le> length (py_strip (page_content r)) \<longrightarrow>
        map fst (record_chunks sp r)
          = filter (\<lambda>chunk. 20 < length (py_strip chunk)) (sp (page_content r))"
    using record_chunks_long[of r sp] by blast
  have d: "\<forall>chunk. length (py_strip chunk) \<le> 20 \<longrightarrow> chunk \<notin> fst ` set (record_chunks sp r)"
  proof (intro allI impI)
    fix chunk assume le: "length (py_strip chunk) \<le> 20"
    show "chunk \<notin> fst ` set (record_chunks sp r)"
    proof (cases "page_content r = [] \<or> length (py_strip (page_content r)) < 50")
      case True
      then show ?thesis by (simp add: record_chunks_short)
    next
      case False
      then have "set (map fst (record_chunks sp r))
          = set (filter (\<lambda>chunk. 20 < length (py_strip chunk)) (sp (page_content r)))"
        using record_chunks_long[of r sp] by simp
      with le show ?thesis by (auto simp only: set_map set_filter)
    qed
  qed
  show ?thesis using a b c d by (intro conjI)
qed

theorem chunk_filtering_witness:
  "length (page_content example_short_record) = 49
   \<and> record_chunks (\<lambda>s. [s]) example_short_record = []
   \<and> map fst (record_chunks (\<lambda>s. [s]) example_long_record) = [replicate 60 (CHR ''a'')]"
proof -
  have l: "length (page_content example_short_record) = 49"
    by (simp add: example_short_record_def)
  have n: "page_content example_long_record \<noteq> []
            \<and> 50 \<le> length (py_strip (page_content example_long_record))"
    by (simp add: example_long_record_def py_strip_replicate[OF not_space_a])
  from chunk_filtering[of example_short_record "\<lambda>s. [s]"] l
  have s: "record_chunks (\<lambda>s. [s]) example_short_record = []" by blast
  from chunk_filtering[of example_long_record "\<lambda>s. [s]"] n
  have "map fst (record_chunks (\<lambda>s. [s]) example_long_record)
          = filter (\<lambda>chunk. 20 < length (py_strip chunk)) [page_content example_long_record]"
    by blast
  then have "map fst (record_chunks (\<lambda>s. [s]) example_long_record) = [replicate 60 (CHR ''a'')]"
    by (simp add: example_long_record_def py_strip_replicate[OF not_space_a])
  with l s show ?thesis by simp
qed

section \<open>Further facts about the model\<close>

text \<open>
  The urls of a table that the program can produce are unique, which is the hypothesis
  of the results on insertion and on a run of the pipeline.
\<close>

lemma reachable_distinct: "reachable d \<Longrightarrow> distinct (map url d)"
proof (induction rule: reachable.induct)
  case reachable_init
  then show ?case by simp
next
  case (reachable_insert d oc searx_article is_new d')
  from insert_distinct[OF reachable_insert.hyps(2) reachable_insert.IH] show ?case .
next
  case (reachable_extract d env a result d')
  from extract_keeps[OF reachable_extract.hyps(2), of "url a"] reachable_extract.IH
  show ?case by simp
qed

text \<open>
  The table after a run of the pipeline is a later table of the table before it: the
  collector only inserts, the processing loop only extracts, and the upload does not
  touch the table.
\<close>

lemma insert_items_later:
  "insert_items env d items = (n, d') \<Longrightarrow> later d0 d \<Longrightarrow> later d0 d'"
proof (induction items arbitrary: d n d')
  case Nil
  then show ?case by simp
next
  case (Cons item items)
  obtain b d1 where i: "insert_searxng_result (sql_insert env item) d item = (b, d1)"
    by (cases "insert_searxng_result (sql_insert env item) d item")
  obtain m d2 where r: "insert_items env d1 items = (m, d2)"
    by (cases "insert_items env d1 items")
  from Cons.prems(1) i r have d: "d' = d2" by simp
  from Cons.IH[OF r later_insert[OF Cons.prems(2) i]] d show ?case by simp
qed

lemma collect_pages_later:
  "collect_pages env topic su tr page k d = (n, d') \<Longrightarrow> later d0 d \<Longrightarrow> later d0 d'"
proof (induction k arbitrary: page d n d')
  case 0
  then show ?case by simp
next
  case (Suc k)
  show ?case
  proof (cases "get_searxng_news env topic su tr page = []")
    case True
    with Suc.prems show ?thesis by simp
  next
    case False
    obtain m d1 where i: "insert_items env d (get_searxng_news env topic su tr page) = (m, d1)"
      by (cases "insert_items env d (get_searxng_news env topic su tr page)")
    obtain t d2 where r: "collect_pages env topic su tr (Suc page) k d1 = (t, d2)"
      by (cases "collect_pages env topic su tr (Suc page) k d1")
    from Suc.prems(1) False i r have d: "d' = d2" by (simp add: Let_def)
    from Suc.IH[OF r insert_items_later[OF i Suc.prems(2)]] d show ?thesis by simp
  qed
qed

lemma process_loop_later:
  "process_loop env d articles acc = (res, d') \<Longrightarrow> later d0 d \<Longrightarrow> later d0 d'"
proof (induction articles arbitrary: d acc)
  case Nil
  then show ?case by simp
next
  case (Cons a articles)
  show ?case
  proof (cases "title a")
    case None
    with Cons.prems show ?thesis by simp
  next
    case (Some t)
    obtain out d1 where e: "extract_and_format_enhanced env d a = (out, d1)"
      by (cases "extract_and_format_enhanced env d a")
    note l1 = later_extract[OF Cons.prems(2) e]
    show ?thesis
    proof (cases out)
      case Raises
      with Cons.prems(1) Some e have "d' = d1" by simp
      with l1 show ?thesis by simp
    next
      case (Returns x)
      obtain acc' where "process_loop env d1 articles acc' = (res, d')"
        using Cons.prems(1) Some e Returns by (cases x) auto
      from Cons.IH[OF this l1] show ?thesis .
    qed
  qed
qed

lemma process_stored_later:
  assumes "process_stored_articles env d lim = (res, d')"
  shows "later d d'"
proof (cases "get_unprocessed_articles d lim = []")
  case True
  with assms have "d' = d" by (simp add: process_stored_articles_def)
  then show ?thesis by (simp add: later_refl)
next
  case False
  with assms have "process_loop env d (get_unprocessed_articles d lim) [] = (res, d')"
    by (simp add: process_stored_articles_def Let_def)
  from process_loop_later[OF this later_refl] show ?thesis .
qed

lemma later_trans: "later d1 d2 \<Longrightarrow> later d0 d1 \<Longrightarrow> later d0 d2"
proof (induction rule: later.induct)
  case (later_refl d)
  then show ?case .
next
  case (later_insert d d1 oc searx_article is_new d2)
  from later_insert.IH[OF later_insert.prems] later_insert.hyps(2) show ?case
    by (rule later.later_insert)
next
  case (later_extract d d1 env a result d2)
  from later_extract.IH[OF later_extract.prems] later_extract.hyps(2) show ?case
    by (rule later.later_extract)
qed

lemma run_later:
  assumes "run_complete_pipeline env up d vs topic su mp tr lim = (res, d', vs')"
  shows "later d d'"
proof -
  obtain n d1 where c: "collect_searxng_articles env d topic su mp tr = (n, d1)"
    by (cases "collect_searxng_articles env d topic su mp tr")
  obtain out d2 where p: "process_stored_articles env d1 lim = (out, d2)"
    by (cases "process_stored_articles env d1 lim")
  from c have l1: "later d d1"
    using collect_pages_later[OF _ later_refl] by (simp add: collect_searxng_articles_def)
  have l2: "later d1 d2" by (rule process_stored_later[OF p])
  have "d' = d2"
  proof (cases out)
    case Raises
    with assms c p show ?thesis by (simp add: run_complete_pipeline_def)
  next
    case (Returns recs)
    with assms c p show ?thesis
      by (cases "recs = []")
         (auto simp: run_complete_pipeline_def split: prod.splits)
  qed
  with later_trans[OF l2 l1] show ?thesis by simp
qed

text \<open>
  When the body of the \<open>try\<close> of \<open>extract_and_format_enhanced\<close> raises: exactly
  when Trafilatura raises on a downloaded page, or when there is content to return and
  either neither the extracted metadata nor the stored row has a \<open>description\<close> to
  slice, or the database cannot be opened for the call of step E.
\<close>

lemma build_metadata_raises:
  "build_metadata env a tm src s = Raises
     \<longleftrightarrow> py_or (meta_get tm tm_description) (content a) = None"
  by (cases "py_or (meta_get tm tm_description) (content a)") (simp_all add: build_metadata_def)

lemma finish_extract_raises:
  "finish_extract env d a tm fc src s = Raises
     \<longleftrightarrow> py_or (meta_get tm tm_description) (content a) = None
         \<or> sql_update env (url a) = CannotOpen"
proof -
  have "finish_extract env d a tm fc src s = Raises
          \<longleftrightarrow> build_metadata env a tm src s = Raises \<or> sql_update env (url a) = CannotOpen"
    by (cases "build_metadata env a tm src s"; cases "sql_update env (url a)")
       (simp_all add: finish_extract_def mark_as_processed_def)
  then show ?thesis by (simp only: build_metadata_raises)
qed

lemma trafilatura_step_raises:
  "trafilatura_step env downloaded = Raises
     \<longleftrightarrow> (\<exists>page. downloaded = Some page \<and> page \<noteq> []
            \<and> (traf_extract env page = Raises \<or> traf_extract_metadata env page = Raises))"
proof (cases downloaded)
  case None
  then show ?thesis by (simp add: trafilatura_step_def)
next
  case (Some page)
  show ?thesis
  proof (cases "page = []")
    case True
    with Some show ?thesis by (simp add: trafilatura_step_def)
  next
    case False
    with Some show ?thesis
      by (cases "traf_extract env page"; cases "traf_extract_metadata env page")
         (simp_all add: trafilatura_step_def)
  qed
qed

lemma extract_try_raises:
  "extract_try env d a = Raises \<longleftrightarrow>
     trafilatura_step env (fetch_with_strategy env (url a)) = Raises
     \<or> (\<exists>tc tm. trafilatura_step env (fetch_with_strategy env (url a)) = Returns (tc, tm)
           \<and> (truthy_text tc \<or> truthy_text (py_or (content a) (title a)))
           \<and> (py_or (meta_get tm tm_description) (content a) = None
                \<or> sql_update env (url a) = CannotOpen))"
proof (cases "trafilatura_step env (fetch_with_strategy env (url a))")
  case Raises
  then show ?thesis by (simp add: extract_try_alt)
next
  case (Returns p)
  obtain tc tm where p: "p = (tc, tm)" by (cases p)
  show ?thesis
  proof (cases "truthy_text tc")
    case True
    then obtain fc where "tc = Some fc" by (cases tc) auto
    with True Returns p show ?thesis by (simp add: extract_try_alt finish_extract_raises)
  next
    case False
    show ?thesis
    proof (cases "py_or (content a) (title a)")
      case None
      with False Returns p show ?thesis by (simp add: extract_try_alt)
    next
      case (Some fc)
      with False Returns p show ?thesis
        by (cases "fc = []") (simp_all add: extract_try_alt finish_extract_raises)
    qed
  qed
qed

end
